theory Spec2Isabelle
  imports Main "HOL-Library.Word" "HOL-Library.Sublist"
begin

section \<open>JavaScript strings\<close>

text \<open>
  A JavaScript string is a sequence of UTF-16 code units; \<^verbatim>\<open>length\<close> and
  \<^verbatim>\<open>substring\<close> count code units. A source literal is written \<open>lit ''...''\<close>.
\<close>

type_synonym jschar = "16 word"
type_synonym jsstring = "jschar list"

definition lit :: "string \<Rightarrow> jsstring" where
  "lit s = map of_char s"

text \<open>\<^verbatim>\<open>s.substring(a, b)\<close> for non-negative integer arguments: the arguments are
  clamped to the length and swapped when \<open>a > b\<close>.\<close>

definition substring :: "jsstring \<Rightarrow> nat \<Rightarrow> nat \<Rightarrow> jsstring" where
  "substring s a b = take (max a b - min a b) (drop (min a b) s)"

text \<open>The decimal digits of a natural number, and the string conversion of an integral
  Number below \<open>10^21\<close> in magnitude (the template literal around \<^verbatim>\<open>Date.now()\<close>).\<close>

fun digits_of :: "nat \<Rightarrow> jsstring" where
  "digits_of n = (if n < 10 then [of_nat (48 + n)] else digits_of (n div 10) @ [of_nat (48 + n mod 10)])"

definition Number_toString :: "int \<Rightarrow> jsstring" where
  "Number_toString i = (if i < 0 then lit ''-'' @ digits_of (nat (- i)) else digits_of (nat i))"

definition is_lead :: "jschar \<Rightarrow> bool" where
  "is_lead c = (0xD800 \<le> c \<and> c \<le> 0xDBFF)"

definition is_trail :: "jschar \<Rightarrow> bool" where
  "is_trail c = (0xDC00 \<le> c \<and> c \<le> 0xDFFF)"

text \<open>The string iterator yields code points: a surrogate pair stays together.\<close>

fun code_points :: "jsstring \<Rightarrow> jsstring list" where
  "code_points [] = []"
| "code_points [c] = [[c]]"
| "code_points (c # d # cs) =
     (if is_lead c \<and> is_trail d then [c, d] # code_points cs
      else [c] # code_points (d # cs))"


section \<open>JSON\<close>

text \<open>
  The values \<^verbatim>\<open>JSON.parse\<close> can return. The program never computes with numbers, and
  their floating-point value is outside this development: the type \<open>'n\<close> of numbers is a
  parameter, together with the conversion \<open>number_of\<close> from a numeric literal and the
  conversion \<open>number_str\<close> that \<^verbatim>\<open>JSON.stringify\<close> applies to a number. The property list
  of an object is kept in property enumeration order.
\<close>

datatype 'n jsval =
    JNull
  | JBool bool
  | JNum 'n
  | JStr jsstring
  | JArr "'n jsval list"
  | JObj "(jsstring \<times> 'n jsval) list"

datatype js_error = SyntaxError | TypeError | SecurityError | QuotaExceededError

subsection \<open>\<^verbatim>\<open>JSON.stringify\<close>\<close>

definition hexdigit :: "nat \<Rightarrow> jschar" where
  "hexdigit n = (if n < 10 then of_nat (48 + n) else of_nat (87 + n))"

definition hex4 :: "jschar \<Rightarrow> jsstring" where
  "hex4 c = (let n = unat c in
     map hexdigit [n div 4096, n div 256 mod 16, n div 16 mod 16, n mod 16])"

text \<open>One code unit inside a quoted string: the short escapes, \<^verbatim>\<open>\uXXXX\<close> for the other
  control characters and for a surrogate that is not part of a pair, the unit itself
  otherwise.\<close>

definition escape_unit :: "jschar \<Rightarrow> jsstring" where
  "escape_unit c =
     (if c = 0x08 then [0x5C, 0x62]
      else if c = 0x09 then [0x5C, 0x74]
      else if c = 0x0A then [0x5C, 0x6E]
      else if c = 0x0C then [0x5C, 0x66]
      else if c = 0x0D then [0x5C, 0x72]
      else if c = 0x22 then [0x5C, 0x22]
      else if c = 0x5C then [0x5C, 0x5C]
      else if c < 0x20 \<or> is_lead c \<or> is_trail c then 0x5C # 0x75 # hex4 c
      else [c])"

fun quote_body :: "jsstring \<Rightarrow> jsstring" where
  "quote_body [] = []"
| "quote_body [c] = escape_unit c"
| "quote_body (c # d # cs) =
     (if is_lead c \<and> is_trail d then c # d # quote_body cs
      else escape_unit c @ quote_body (d # cs))"

definition QuoteJSONString :: "jsstring \<Rightarrow> jsstring" where
  "QuoteJSONString s = 0x22 # quote_body s @ [0x22]"

text \<open>\<^verbatim>\<open>Array.prototype.join\<close> on an array of strings.\<close>

fun join :: "jsstring \<Rightarrow> jsstring list \<Rightarrow> jsstring" where
  "join sep [] = []"
| "join sep [x] = x"
| "join sep (x # y # ys) = x @ sep @ join sep (y # ys)"

fun JSON_stringify :: "('n \<Rightarrow> jsstring) \<Rightarrow> 'n jsval \<Rightarrow> jsstring" where
  "JSON_stringify ns JNull = lit ''null''"
| "JSON_stringify ns (JBool b) = (if b then lit ''true'' else lit ''false'')"
| "JSON_stringify ns (JNum n) = ns n"
| "JSON_stringify ns (JStr s) = QuoteJSONString s"
| "JSON_stringify ns (JArr vs) =
     lit ''['' @ join (lit '','') (map (JSON_stringify ns) vs) @ lit '']''"
| "JSON_stringify ns (JObj ps) =
     lit ''{'' @ join (lit '','')
        (map (\<lambda>(k, v). QuoteJSONString k @ lit '':'' @ JSON_stringify ns v) ps) @ lit ''}''"

subsection \<open>\<^verbatim>\<open>JSON.parse\<close>: the lexer\<close>

datatype token =
    TLBrace | TRBrace | TLBrack | TRBrack | TColon | TComma
  | TString jsstring | TNumber jsstring | TTrue | TFalse | TNull

definition unhexdigit :: "jschar \<Rightarrow> nat option" where
  "unhexdigit c = (let n = unat c in
     if 48 \<le> n \<and> n \<le> 57 then Some (n - 48)
     else if 97 \<le> n \<and> n \<le> 102 then Some (n - 87)
     else if 65 \<le> n \<and> n \<le> 70 then Some (n - 55)
     else None)"

definition unhex4 :: "jschar \<Rightarrow> jschar \<Rightarrow> jschar \<Rightarrow> jschar \<Rightarrow> jschar option" where
  "unhex4 a b c d =
     (case (unhexdigit a, unhexdigit b, unhexdigit c, unhexdigit d) of
        (Some p, Some q, Some r, Some s) \<Rightarrow> Some (of_nat (((p * 16 + q) * 16 + r) * 16 + s))
      | _ \<Rightarrow> None)"

text \<open>The character after a backslash, other than \<^verbatim>\<open>u\<close>.\<close>

definition unescape :: "jschar \<Rightarrow> jschar option" where
  "unescape e =
     (if e = 0x22 then Some 0x22
      else if e = 0x5C then Some 0x5C
      else if e = 0x2F then Some 0x2F
      else if e = 0x62 then Some 0x08
      else if e = 0x66 then Some 0x0C
      else if e = 0x6E then Some 0x0A
      else if e = 0x72 then Some 0x0D
      else if e = 0x74 then Some 0x09
      else None)"

text \<open>The rest of a string literal after its opening quote: the decoded string and the
  input after the closing quote. An unescaped control character, a bad escape or the end
  of the input is a syntax error.\<close>

fun lex_string :: "jsstring \<Rightarrow> jsstring \<Rightarrow> (jsstring \<times> jsstring) option" where
  "lex_string acc [] = None"
| "lex_string acc (c # cs) =
     (if c = 0x22 then Some (rev acc, cs)
      else if c = 0x5C then
        (case cs of
           [] \<Rightarrow> None
         | e # cs1 \<Rightarrow>
             if e = 0x75 then
               (case cs1 of
                  h1 # h2 # h3 # h4 # cs2 \<Rightarrow>
                    (case unhex4 h1 h2 h3 h4 of
                       None \<Rightarrow> None
                     | Some u \<Rightarrow> lex_string (u # acc) cs2)
                | _ \<Rightarrow> None)
             else
               (case unescape e of
                  None \<Rightarrow> None
                | Some u \<Rightarrow> lex_string (u # acc) cs1))
      else if c < 0x20 then None
      else lex_string (c # acc) cs)"

definition is_ws :: "jschar \<Rightarrow> bool" where
  "is_ws c = (c = 0x20 \<or> c = 0x09 \<or> c = 0x0A \<or> c = 0x0D)"

definition is_digit :: "jschar \<Rightarrow> bool" where
  "is_digit c = (0x30 \<le> c \<and> c \<le> 0x39)"

definition is_number_char :: "jschar \<Rightarrow> bool" where
  "is_number_char c =
     (is_digit c \<or> c = 0x2B \<or> c = 0x2D \<or> c = 0x2E \<or> c = 0x45 \<or> c = 0x65)"

text \<open>The JSON number grammar: an optional minus, an integer part without a leading zero,
  an optional fraction, an optional exponent.\<close>

definition valid_exponent :: "jsstring \<Rightarrow> bool" where
  "valid_exponent s =
     (case s of
        [] \<Rightarrow> True
      | c # cs \<Rightarrow> (c = 0x45 \<or> c = 0x65) \<and>
          (let ds = (case cs of [] \<Rightarrow> [] | d # r \<Rightarrow> if d = 0x2B \<or> d = 0x2D then r else cs)
           in ds \<noteq> [] \<and> list_all is_digit ds))"

definition valid_fraction :: "jsstring \<Rightarrow> bool" where
  "valid_fraction s =
     (case s of
        [] \<Rightarrow> True
      | c # cs \<Rightarrow>
          if c = 0x2E
          then takeWhile is_digit cs \<noteq> [] \<and> valid_exponent (dropWhile is_digit cs)
          else valid_exponent s)"

definition valid_number :: "jsstring \<Rightarrow> bool" where
  "valid_number s =
     (let u = (case s of [] \<Rightarrow> [] | c # cs \<Rightarrow> if c = 0x2D then cs else s);
          ip = takeWhile is_digit u
      in ip \<noteq> [] \<and> (hd ip = 0x30 \<longrightarrow> length ip = 1) \<and> valid_fraction (dropWhile is_digit u))"

definition emit :: "token \<Rightarrow> token list option \<Rightarrow> token list option" where
  "emit t r = map_option (Cons t) r"

text \<open>The token sequence of a JSON text, or \<open>None\<close> for a syntax error. A number token is
  the longest run of number characters, which must follow the number grammar: in a
  well-formed text a number is never followed directly by another number character.\<close>

function lex :: "jsstring \<Rightarrow> token list option" where
  "lex [] = Some []"
| "lex (c # cs) =
     (if is_ws c then lex cs
      else if c = 0x7B then emit TLBrace (lex cs)
      else if c = 0x7D then emit TRBrace (lex cs)
      else if c = 0x5B then emit TLBrack (lex cs)
      else if c = 0x5D then emit TRBrack (lex cs)
      else if c = 0x3A then emit TColon (lex cs)
      else if c = 0x2C then emit TComma (lex cs)
      else if c = 0x22 then
        (case lex_string [] cs of
           None \<Rightarrow> None
         | Some (s, rest) \<Rightarrow> emit (TString s) (lex rest))
      else if is_number_char c then
        (if valid_number (takeWhile is_number_char (c # cs))
         then emit (TNumber (takeWhile is_number_char (c # cs)))
                (lex (dropWhile is_number_char cs))
         else None)
      else if take 4 (c # cs) = lit ''true'' then emit TTrue (lex (drop 3 cs))
      else if take 5 (c # cs) = lit ''false'' then emit TFalse (lex (drop 4 cs))
      else if take 4 (c # cs) = lit ''null'' then emit TNull (lex (drop 3 cs))
      else None)"
  by pat_completeness auto
termination
proof (relation "measure length")
  show "wf (measure length)" by simp
next
  fix c :: jschar and cs x2 x y
  assume "lex_string [] cs = Some x2" "(x, y) = x2"
  then have l: "lex_string [] cs = Some (x, y)" by simp
  have "lex_string acc cs = Some (s, rest) \<Longrightarrow> length rest \<le> length cs" for acc s rest
  proof (induction acc cs rule: lex_string.induct)
    case (1 acc)
    then show ?case by simp
  next
    case (2 acc c cs)
    show ?case
    proof (cases "c = 0x22")
      case True
      with 2(4) show ?thesis by simp
    next
      case q: False
      show ?thesis
      proof (cases "c = 0x5C")
        case False
        with q 2(3) 2(4) show ?thesis by (auto split: if_splits)
      next
        case True
        with q 2(1) 2(2) 2(4) show ?thesis
          by (fastforce split: if_splits list.splits option.splits)
      qed
    qed
  qed
  from this[OF l] show "(y, c # cs) \<in> measure length" by simp
qed (auto simp: length_dropWhile_le less_Suc_eq_le)

subsection \<open>\<^verbatim>\<open>JSON.parse\<close>: the parser\<close>

text \<open>
  Property creation on an ordinary object. A key that is already present keeps its place
  and takes the new value; a new array index (a canonical numeric string below
  \<open>2^32 - 1\<close>) goes among the array indices in ascending numeric order, before every other
  key; any other new key goes last.
\<close>

definition digits_value :: "jsstring \<Rightarrow> nat" where
  "digits_value s = foldl (\<lambda>a c. 10 * a + (unat c - 48)) 0 s"

definition is_array_index :: "jsstring \<Rightarrow> bool" where
  "is_array_index k =
     (k \<noteq> [] \<and> list_all is_digit k \<and> (hd k = 0x30 \<longrightarrow> length k = 1)
      \<and> digits_value k < 2 ^ 32 - 1)"

fun insert_index :: "jsstring \<Rightarrow> 'v \<Rightarrow> (jsstring \<times> 'v) list \<Rightarrow> (jsstring \<times> 'v) list" where
  "insert_index k v [] = [(k, v)]"
| "insert_index k v ((k', v') # ps) =
     (if is_array_index k' \<and> digits_value k' < digits_value k
      then (k', v') # insert_index k v ps
      else (k, v) # (k', v') # ps)"

definition obj_put :: "jsstring \<Rightarrow> 'v \<Rightarrow> (jsstring \<times> 'v) list \<Rightarrow> (jsstring \<times> 'v) list" where
  "obj_put k v ps =
     (if k \<in> fst ` set ps then map (\<lambda>(k', v'). if k' = k then (k', v) else (k', v')) ps
      else if is_array_index k then insert_index k v ps
      else ps @ [(k, v)])"

text \<open>The parser is a stack machine over the tokens. A frame is an enclosing array with
  its elements so far (last first), or an enclosing object with its properties so far and
  the key whose value is being read.\<close>

datatype 'n frame =
    InArr "'n jsval list"
  | InObj "(jsstring \<times> 'n jsval) list" jsstring

datatype 'n pstate =
    Value "'n frame list"
  | ArrOpen "'n frame list"
  | AfterElem "'n jsval list" "'n frame list"
  | ObjOpen "'n frame list"
  | AfterProp "(jsstring \<times> 'n jsval) list" "'n frame list"
  | Key "(jsstring \<times> 'n jsval) list" "'n frame list"
  | Colon "(jsstring \<times> 'n jsval) list" jsstring "'n frame list"
  | Done "'n jsval"

fun deliver :: "'n jsval \<Rightarrow> 'n frame list \<Rightarrow> 'n pstate" where
  "deliver v [] = Done v"
| "deliver v (InArr es # st) = AfterElem (v # es) st"
| "deliver v (InObj ps k # st) = AfterProp (obj_put k v ps) st"

fun start_value :: "(jsstring \<Rightarrow> 'n) \<Rightarrow> 'n frame list \<Rightarrow> token \<Rightarrow> 'n pstate option" where
  "start_value nf st TLBrack = Some (ArrOpen st)"
| "start_value nf st TLBrace = Some (ObjOpen st)"
| "start_value nf st (TString s) = Some (deliver (JStr s) st)"
| "start_value nf st (TNumber s) = Some (deliver (JNum (nf s)) st)"
| "start_value nf st TTrue = Some (deliver (JBool True) st)"
| "start_value nf st TFalse = Some (deliver (JBool False) st)"
| "start_value nf st TNull = Some (deliver JNull st)"
| "start_value nf st TRBrack = None"
| "start_value nf st TRBrace = None"
| "start_value nf st TColon = None"
| "start_value nf st TComma = None"

fun pstep :: "(jsstring \<Rightarrow> 'n) \<Rightarrow> 'n pstate \<Rightarrow> token \<Rightarrow> 'n pstate option" where
  "pstep nf (Value st) t = start_value nf st t"
| "pstep nf (ArrOpen st) t =
     (if t = TRBrack then Some (deliver (JArr []) st) else start_value nf (InArr [] # st) t)"
| "pstep nf (AfterElem es st) t =
     (if t = TComma then Some (Value (InArr es # st))
      else if t = TRBrack then Some (deliver (JArr (rev es)) st)
      else None)"
| "pstep nf (ObjOpen st) t =
     (case t of
        TRBrace \<Rightarrow> Some (deliver (JObj []) st)
      | TString k \<Rightarrow> Some (Colon [] k st)
      | _ \<Rightarrow> None)"
| "pstep nf (AfterProp ps st) t =
     (if t = TComma then Some (Key ps st)
      else if t = TRBrace then Some (deliver (JObj ps) st)
      else None)"
| "pstep nf (Key ps st) t = (case t of TString k \<Rightarrow> Some (Colon ps k st) | _ \<Rightarrow> None)"
| "pstep nf (Colon ps k st) t = (if t = TColon then Some (Value (InObj ps k # st)) else None)"
| "pstep nf (Done v) t = None"

fun parse_tokens :: "(jsstring \<Rightarrow> 'n) \<Rightarrow> 'n pstate \<Rightarrow> token list \<Rightarrow> 'n pstate option" where
  "parse_tokens nf q [] = Some q"
| "parse_tokens nf q (t # ts) =
     (case pstep nf q t of None \<Rightarrow> None | Some q' \<Rightarrow> parse_tokens nf q' ts)"

definition JSON_parse :: "(jsstring \<Rightarrow> 'n) \<Rightarrow> jsstring \<Rightarrow> js_error + 'n jsval" where
  "JSON_parse nf s =
     (case lex s of
        None \<Rightarrow> Inl SyntaxError
      | Some ts \<Rightarrow>
          (case parse_tokens nf (Value []) ts of
             Some (Done v) \<Rightarrow> Inr v
           | _ \<Rightarrow> Inl SyntaxError))"


section \<open>The browser environment\<close>

text \<open>
  What a call can observe of its environment: the clock, the random number generator,
  whether access to \<^verbatim>\<open>localStorage\<close> raises (storage disabled or blocked), whether
  storing a value under a key exceeds the quota, whether \<^verbatim>\<open>URL.createObjectURL\<close>
  raises, and the two number conversions of JSON. Console output is not modelled, nor
  are the resource limits of the engine.
\<close>

record 'n env =
  Date_now :: int
  Math_random_36 :: jsstring
  storage_blocked :: bool
  quota_exceeded :: "jsstring \<Rightarrow> jsstring \<Rightarrow> bool"
  createObjectURL_fails :: bool
  number_of :: "jsstring \<Rightarrow> 'n"
  number_str :: "'n \<Rightarrow> jsstring"

text \<open>
  The content of a \<^verbatim>\<open>Blob\<close> built from strings. Each string is converted to a
  sequence of Unicode scalar values, in which a surrogate pair stands for one scalar value
  and a surrogate that is not part of a pair is replaced by U+FFFD; the content is the
  UTF-8 encoding of the scalar values, part after part. Line endings are kept as they are.
\<close>

type_synonym byte = "8 word"

fun toUSVString :: "jsstring \<Rightarrow> jsstring" where
  "toUSVString [] = []"
| "toUSVString [c] = [if is_lead c \<or> is_trail c then 0xFFFD else c]"
| "toUSVString (c # d # cs) =
     (if is_lead c \<and> is_trail d then c # d # toUSVString cs
      else (if is_lead c \<or> is_trail c then 0xFFFD else c) # toUSVString (d # cs))"

text \<open>\<^verbatim>\<open>String.prototype.isWellFormed\<close>: no surrogate stands outside a pair.\<close>

fun isWellFormed :: "jsstring \<Rightarrow> bool" where
  "isWellFormed [] = True"
| "isWellFormed [c] = (\<not> is_lead c \<and> \<not> is_trail c)"
| "isWellFormed (c # d # cs) =
     (if is_lead c \<and> is_trail d then isWellFormed cs
      else \<not> is_lead c \<and> \<not> is_trail c \<and> isWellFormed (d # cs))"

text \<open>The number of a code point, given as the one or two code units that
  \<open>code_points\<close> yields for it.\<close>

definition code_point_value :: "jsstring \<Rightarrow> nat" where
  "code_point_value p =
     (case p of
        [c] \<Rightarrow> unat c
      | [c, d] \<Rightarrow> 0x10000 + (unat c - 0xD800) * 0x400 + (unat d - 0xDC00)
      | _ \<Rightarrow> 0)"

definition utf8_encode :: "nat \<Rightarrow> byte list" where
  "utf8_encode n =
     (if n < 0x80 then [of_nat n]
      else if n < 0x800 then [of_nat (0xC0 + n div 0x40), of_nat (0x80 + n mod 0x40)]
      else if n < 0x10000 then
        [of_nat (0xE0 + n div 0x1000), of_nat (0x80 + n div 0x40 mod 0x40),
         of_nat (0x80 + n mod 0x40)]
      else
        [of_nat (0xF0 + n div 0x40000), of_nat (0x80 + n div 0x1000 mod 0x40),
         of_nat (0x80 + n div 0x40 mod 0x40), of_nat (0x80 + n mod 0x40)])"

definition UTF8 :: "jsstring \<Rightarrow> byte list" where
  "UTF8 s = concat (map (\<lambda>p. utf8_encode (code_point_value p)) (code_points s))"

definition Blob_content :: "jsstring list \<Rightarrow> byte list" where
  "Blob_content parts = concat (map (\<lambda>s. UTF8 (toUSVString s)) parts)"

text \<open>A download started by a click on an anchor: the \<^verbatim>\<open>download\<close> attribute, and the
  content and the type of the blob behind its \<^verbatim>\<open>href\<close>.\<close>

record download =
  download_name :: jsstring
  blob_content :: "byte list"
  blob_type :: jsstring

record world =
  localStorage :: "jsstring \<rightharpoonup> jsstring"
  downloads :: "download list"

definition getItem :: "'n env \<Rightarrow> jsstring \<Rightarrow> world \<Rightarrow> js_error + jsstring option" where
  "getItem e k w = (if storage_blocked e then Inl SecurityError else Inr (localStorage w k))"

definition setItem :: "'n env \<Rightarrow> jsstring \<Rightarrow> jsstring \<Rightarrow> world \<Rightarrow> js_error + world" where
  "setItem e k v w =
     (if storage_blocked e then Inl SecurityError
      else if quota_exceeded e k v then Inl QuotaExceededError
      else Inr (w\<lparr>localStorage := (localStorage w)(k \<mapsto> v)\<rparr>))"

definition removeItem :: "'n env \<Rightarrow> jsstring \<Rightarrow> world \<Rightarrow> js_error + world" where
  "removeItem e k w =
     (if storage_blocked e then Inl SecurityError
      else Inr (w\<lparr>localStorage := (localStorage w)(k := None)\<rparr>))"


section \<open>The history service\<close>

text \<open>Modelled from the spec: the type \<^verbatim>\<open>TranscriptionResult\<close> is declared in the
  module \<^verbatim>\<open>./api\<close>, which is not among the sources; the specification gives its shape as
  \<^verbatim>\<open>{ fileName, date, duration, fileSize, text }\<close>, all strings.\<close>

record TranscriptionResult =
  r_fileName :: jsstring
  r_date :: jsstring
  r_duration :: jsstring
  r_fileSize :: jsstring
  r_text :: jsstring

record HistoryItem =
  h_id :: jsstring
  h_fileName :: jsstring
  h_date :: jsstring
  h_duration :: jsstring
  h_fileSize :: jsstring
  h_text :: jsstring
  h_preview :: jsstring

text \<open>A \<^verbatim>\<open>HistoryItem\<close> as a JavaScript object, with the properties in the order of the
  object literal in \<^verbatim>\<open>saveTranscription\<close>.\<close>

definition item_val :: "HistoryItem \<Rightarrow> 'n jsval" where
  "item_val h = JObj
     [(lit ''id'', JStr (h_id h)),
      (lit ''fileName'', JStr (h_fileName h)),
      (lit ''date'', JStr (h_date h)),
      (lit ''duration'', JStr (h_duration h)),
      (lit ''fileSize'', JStr (h_fileSize h)),
      (lit ''text'', JStr (h_text h)),
      (lit ''preview'', JStr (h_preview h))]"

definition STORAGE_KEY :: jsstring where
  "STORAGE_KEY = lit ''luminatext_history''"

text \<open>\<^verbatim>\<open>try { ... } catch (error) { ... }\<close>\<close>

definition try_catch :: "js_error + 'a \<Rightarrow> (js_error \<Rightarrow> js_error + 'a) \<Rightarrow> js_error + 'a" where
  "try_catch body handler = (case body of Inl error \<Rightarrow> handler error | Inr x \<Rightarrow> Inr x)"

subsection \<open>\<^verbatim>\<open>getTranscriptionHistory\<close>\<close>

text \<open>\<^verbatim>\<open>stored ? JSON.parse(stored) : []\<close>: \<^verbatim>\<open>null\<close> and the empty string are falsy. The
  declared result type is \<^verbatim>\<open>HistoryItem[]\<close>, but the value returned is whatever
  \<^verbatim>\<open>JSON.parse\<close> produced.\<close>

definition getTranscriptionHistory :: "'n env \<Rightarrow> world \<Rightarrow> js_error + 'n jsval" where
  "getTranscriptionHistory e w =
     try_catch
       (case getItem e STORAGE_KEY w of
          Inl error \<Rightarrow> Inl error
        | Inr stored \<Rightarrow>
            (case stored of
               None \<Rightarrow> Inr (JArr [])
             | Some s \<Rightarrow> if s \<noteq> [] then JSON_parse (number_of e) s else Inr (JArr [])))
       (\<lambda>error. Inr (JArr []))"

subsection \<open>\<^verbatim>\<open>saveTranscription\<close>\<close>

definition new_id :: "'n env \<Rightarrow> jsstring" where
  "new_id e = Number_toString (Date_now e) @ lit ''-'' @ substring (Math_random_36 e) 2 9"

definition preview_of :: "jsstring \<Rightarrow> jsstring" where
  "preview_of t = substring t 0 150 @ (if length t > 150 then lit ''...'' else [])"

definition historyItem :: "'n env \<Rightarrow> TranscriptionResult \<Rightarrow> HistoryItem" where
  "historyItem e result =
     \<lparr> h_id = new_id e,
       h_fileName = r_fileName result,
       h_date = r_date result,
       h_duration = r_duration result,
       h_fileSize = r_fileSize result,
       h_text = r_text result,
       h_preview = preview_of (r_text result) \<rparr>"

text \<open>The spread \<^verbatim>\<open>...existingHistory\<close> in an array literal: the elements of an array, the
  code points of a string, and a \<^verbatim>\<open>TypeError\<close> for a value that is not iterable.\<close>

fun spread :: "'n jsval \<Rightarrow> js_error + 'n jsval list" where
  "spread (JArr vs) = Inr vs"
| "spread (JStr s) = Inr (map JStr (code_points s))"
| "spread JNull = Inl TypeError"
| "spread (JBool b) = Inl TypeError"
| "spread (JNum n) = Inl TypeError"
| "spread (JObj ps) = Inl TypeError"

definition saveTranscription :: "'n env \<Rightarrow> TranscriptionResult \<Rightarrow> world \<Rightarrow> js_error + world" where
  "saveTranscription e result w =
     try_catch
       (case getTranscriptionHistory e w of
          Inl error \<Rightarrow> Inl error
        | Inr existingHistory \<Rightarrow>
            (case spread existingHistory of
               Inl error \<Rightarrow> Inl error
             | Inr rest \<Rightarrow>
                 (let updatedHistory = item_val (historyItem e result) # rest;
                      limitedHistory = take 100 updatedHistory
                  in setItem e STORAGE_KEY
                       (JSON_stringify (number_str e) (JArr limitedHistory)) w)))
       (\<lambda>error. Inr w)"

subsection \<open>\<^verbatim>\<open>deleteTranscription\<close>\<close>

text \<open>The property read \<^verbatim>\<open>item.id\<close>: a \<^verbatim>\<open>TypeError\<close> on \<^verbatim>\<open>null\<close>, the own property of
  an object, and \<^verbatim>\<open>undefined\<close> (here \<open>None\<close>) otherwise.\<close>

fun get_id :: "'n jsval \<Rightarrow> js_error + 'n jsval option" where
  "get_id JNull = Inl TypeError"
| "get_id (JObj ps) = Inr (map_of ps (lit ''id''))"
| "get_id (JBool b) = Inr None"
| "get_id (JNum n) = Inr None"
| "get_id (JStr s) = Inr None"
| "get_id (JArr vs) = Inr None"

text \<open>\<^verbatim>\<open>history.filter(item => item.id !== id)\<close> on the elements of an array, in order.\<close>

fun filter_items :: "jsstring \<Rightarrow> 'n jsval list \<Rightarrow> js_error + 'n jsval list" where
  "filter_items i [] = Inr []"
| "filter_items i (item # items) =
     (case get_id item of
        Inl error \<Rightarrow> Inl error
      | Inr p \<Rightarrow>
          (case filter_items i items of
             Inl error \<Rightarrow> Inl error
           | Inr kept \<Rightarrow> Inr (if p \<noteq> Some (JStr i) then item # kept else kept)))"

text \<open>Only an array has a \<^verbatim>\<open>filter\<close> method: on \<^verbatim>\<open>null\<close> the property read raises, on
  any other value the call of \<^verbatim>\<open>undefined\<close> does.\<close>

fun history_filter :: "jsstring \<Rightarrow> 'n jsval \<Rightarrow> js_error + 'n jsval list" where
  "history_filter i (JArr vs) = filter_items i vs"
| "history_filter i JNull = Inl TypeError"
| "history_filter i (JBool b) = Inl TypeError"
| "history_filter i (JNum n) = Inl TypeError"
| "history_filter i (JStr s) = Inl TypeError"
| "history_filter i (JObj ps) = Inl TypeError"

definition deleteTranscription :: "'n env \<Rightarrow> jsstring \<Rightarrow> world \<Rightarrow> js_error + world" where
  "deleteTranscription e i w =
     try_catch
       (case getTranscriptionHistory e w of
          Inl error \<Rightarrow> Inl error
        | Inr history \<Rightarrow>
            (case history_filter i history of
               Inl error \<Rightarrow> Inl error
             | Inr updatedHistory \<Rightarrow>
                 setItem e STORAGE_KEY (JSON_stringify (number_str e) (JArr updatedHistory)) w))
       (\<lambda>error. Inr w)"

subsection \<open>\<^verbatim>\<open>clearAllHistory\<close>\<close>

definition clearAllHistory :: "'n env \<Rightarrow> world \<Rightarrow> js_error + world" where
  "clearAllHistory e w = try_catch (removeItem e STORAGE_KEY w) (\<lambda>error. Inr w)"

subsection \<open>\<^verbatim>\<open>downloadTranscription\<close>\<close>

text \<open>
  \<^verbatim>\<open>fileName.replace(/\.[^/.]+$/, '')\<close>. The pattern matches at a position when a dot
  stands there and the rest of the string, up to its end, is a non-empty run of
  characters other than slash and dot. The first position that matches, from the left, is
  replaced (the pattern has no \<^verbatim>\<open>g\<close> flag).
\<close>

definition extension_matches :: "jsstring \<Rightarrow> bool" where
  "extension_matches s =
     (case s of
        [] \<Rightarrow> False
      | c # cs \<Rightarrow> c = 0x2E \<and> cs \<noteq> [] \<and> list_all (\<lambda>d. d \<noteq> 0x2F \<and> d \<noteq> 0x2E) cs)"

fun replace_extension :: "jsstring \<Rightarrow> jsstring" where
  "replace_extension [] = []"
| "replace_extension (c # cs) =
     (if extension_matches (c # cs) then [] else c # replace_extension cs)"

definition downloadTranscription :: "'n env \<Rightarrow> HistoryItem \<Rightarrow> world \<Rightarrow> js_error + world" where
  "downloadTranscription e item w =
     try_catch
       (if createObjectURL_fails e then Inl TypeError
        else Inr (w\<lparr>downloads := downloads w @
               [\<lparr> download_name = replace_extension (h_fileName item) @ lit ''_transcript.txt'',
                  blob_content = Blob_content [h_text item],
                  blob_type = lit ''text/plain'' \<rparr>]\<rparr>))
       (\<lambda>error. Inr w)"

subsection \<open>Sequences of calls\<close>

text \<open>The calls that write to the store, as the two pages issue them, each in the
  environment of its moment.\<close>

datatype store_op = Save TranscriptionResult | Delete jsstring | Clear

fun perform :: "'n env \<Rightarrow> store_op \<Rightarrow> world \<Rightarrow> js_error + world" where
  "perform e (Save result) w = saveTranscription e result w"
| "perform e (Delete i) w = deleteTranscription e i w"
| "perform e Clear w = clearAllHistory e w"

fun run :: "('n env \<times> store_op) list \<Rightarrow> world \<Rightarrow> js_error + world" where
  "run [] w = Inr w"
| "run ((e, c) # cs) w =
     (case perform e c w of Inl error \<Rightarrow> Inl error | Inr w' \<Rightarrow> run cs w')"

definition empty_world :: world where
  "empty_world = \<lparr> localStorage = Map.empty, downloads = [] \<rparr>"

text \<open>The records that the save calls of a sequence build, oldest first.\<close>

fun saved :: "('n env \<times> store_op) list \<Rightarrow> HistoryItem list" where
  "saved [] = []"
| "saved ((e, Save result) # cs) = historyItem e result # saved cs"
| "saved ((e, Delete i) # cs) = saved cs"
| "saved ((e, Clear) # cs) = saved cs"

section \<open>Stored record lists\<close>

text \<open>The storage format: one key holds the JSON text of an array of \<^verbatim>\<open>HistoryItem\<close>
  objects. \<open>records items\<close> is that array as a value; \<open>holds w items\<close> says that the key
  is absent and the list is empty, or that the key holds the JSON text of the list.\<close>

definition records :: "HistoryItem list \<Rightarrow> 'n jsval" where
  "records items = JArr (map item_val items)"

definition stored_text :: "HistoryItem list \<Rightarrow> jsstring" where
  "stored_text items = JSON_stringify (\<lambda>n :: unit. []) (records items)"

definition holds :: "world \<Rightarrow> HistoryItem list \<Rightarrow> bool" where
  "holds w items =
     (case localStorage w STORAGE_KEY of
        None \<Rightarrow> items = []
      | Some s \<Rightarrow> s = stored_text items)"

text \<open>The tokens of the JSON text of a record and of a record list.\<close>

definition item_tokens :: "HistoryItem \<Rightarrow> token list" where
  "item_tokens h =
     [TLBrace,
      TString (lit ''id''), TColon, TString (h_id h), TComma,
      TString (lit ''fileName''), TColon, TString (h_fileName h), TComma,
      TString (lit ''date''), TColon, TString (h_date h), TComma,
      TString (lit ''duration''), TColon, TString (h_duration h), TComma,
      TString (lit ''fileSize''), TColon, TString (h_fileSize h), TComma,
      TString (lit ''text''), TColon, TString (h_text h), TComma,
      TString (lit ''preview''), TColon, TString (h_preview h),
      TRBrace]"

definition more_tokens :: "HistoryItem list \<Rightarrow> token list" where
  "more_tokens items = concat (map (\<lambda>h. TComma # item_tokens h) items)"

definition records_tokens :: "HistoryItem list \<Rightarrow> token list" where
  "records_tokens items =
     (case items of
        [] \<Rightarrow> [TLBrack, TRBrack]
      | h # hs \<Rightarrow> TLBrack # item_tokens h @ more_tokens hs @ [TRBrack])"

text \<open>A browser in which storage works and nothing fails, and sample data.\<close>

definition browser :: "jsstring env" where
  "browser =
     \<lparr> Date_now = 1700000000000,
       Math_random_36 = lit ''0.4fzyo82mvyr'',
       storage_blocked = False,
       quota_exceeded = (\<lambda>k v. False),
       createObjectURL_fails = False,
       number_of = (\<lambda>s. s),
       number_str = (\<lambda>n. n) \<rparr>"

definition blocked_browser :: "jsstring env" where
  "blocked_browser = browser\<lparr>storage_blocked := True\<rparr>"

definition sample_result :: TranscriptionResult where
  "sample_result =
     \<lparr> r_fileName = lit ''interview.mp3'',
       r_date = lit ''2024-01-15'',
       r_duration = lit ''02:31'',
       r_fileSize = lit ''3.4 MB'',
       r_text = lit ''Hello, world.'' \<rparr>"

definition sample_item :: HistoryItem where
  "sample_item = historyItem browser sample_result"

definition world_with :: "jsstring \<Rightarrow> world" where
  "world_with s = \<lparr> localStorage = [STORAGE_KEY \<mapsto> s], downloads = [] \<rparr>"

definition full_browser :: "jsstring env" where
  "full_browser = browser\<lparr>quota_exceeded := (\<lambda>k v. True)\<rparr>"

definition item_a :: HistoryItem where
  "item_a = sample_item\<lparr>h_id := lit ''a''\<rparr>"

definition item_b :: HistoryItem where
  "item_b = sample_item\<lparr>h_id := lit ''b''\<rparr>"

definition item_a2 :: HistoryItem where
  "item_a2 = sample_item\<lparr>h_id := lit ''a'', h_text := lit ''again''\<rparr>"

definition saves_101 :: "(jsstring env \<times> store_op) list" where
  "saves_101 = map (\<lambda>n. (browser, Save (sample_result\<lparr>r_text := replicate n 0x61\<rparr>))) [0..<101]"


section \<open>Properties of the JSON functions\<close>

lemma unat_hexdigit: "n < 16 \<Longrightarrow> unat (hexdigit n) = (if n < 10 then 48 + n else 87 + n)"
  by (simp add: hexdigit_def unat_of_nat del: of_nat_add)

lemma unhexdigit_hexdigit: "n < 16 \<Longrightarrow> unhexdigit (hexdigit n) = Some n"
  unfolding unhexdigit_def Let_def by (auto simp: unat_hexdigit)

lemma hex_digits_nat:
  "((n div 4096 * 16 + n div 256 mod 16) * 16 + n div 16 mod 16) * 16 + n mod 16 = (n::nat)"
proof -
  have a: "n div 256 = n div 16 div 16" by (simp add: div_mult2_eq)
  have b: "n div 4096 = n div 16 div 16 div 16" by (simp add: div_mult2_eq)
  have s1: "n div 16 * 16 + n mod 16 = n" by simp
  have s2: "n div 16 div 16 * 16 + n div 16 mod 16 = n div 16" by simp
  have s3: "n div 16 div 16 div 16 * 16 + n div 16 div 16 mod 16 = n div 16 div 16" by simp
  show ?thesis unfolding a b s3 s2 s1 ..
qed

text \<open>Reading the four hexadecimal digits of a code unit gives the code unit back.\<close>

lemma unhex4_hex4:
  assumes h: "hex4 c = [h1, h2, h3, h4]"
  shows "unhex4 h1 h2 h3 h4 = Some c"
proof -
  define n where "n = unat c"
  have n: "n < 65536" using unsigned_less[of c, where 'a = nat] by (simp add: n_def)
  from h have hs: "h1 = hexdigit (n div 4096)" "h2 = hexdigit (n div 256 mod 16)"
     "h3 = hexdigit (n div 16 mod 16)" "h4 = hexdigit (n mod 16)"
    by (simp_all add: hex4_def n_def Let_def)
  have d: "n div 4096 < 16" using n by simp
  have u: "unhexdigit (hexdigit (n div 4096)) = Some (n div 4096)"
    "unhexdigit (hexdigit (n div 256 mod 16)) = Some (n div 256 mod 16)"
    "unhexdigit (hexdigit (n div 16 mod 16)) = Some (n div 16 mod 16)"
    "unhexdigit (hexdigit (n mod 16)) = Some (n mod 16)"
    using d by (simp_all add: unhexdigit_hexdigit)
  have "unhex4 h1 h2 h3 h4 = Some (of_nat n)"
    unfolding unhex4_def hs u by (simp only: prod.case option.case hex_digits_nat)
  then show ?thesis by (simp add: n_def)
qed

lemma lex_string_escape_unit:
  "lex_string acc (escape_unit c @ rest) = lex_string (c # acc) rest"
proof -
  obtain h1 h2 h3 h4 where hx: "hex4 c = [h1, h2, h3, h4]"
    by (simp add: hex4_def Let_def)
  show ?thesis
    by (simp add: escape_unit_def unescape_def hx unhex4_hex4[OF hx])
qed

lemma surrogate_plain:
  "is_lead c \<or> is_trail c \<Longrightarrow> c \<noteq> 0x22 \<and> c \<noteq> 0x5C \<and> \<not> c < 0x20"
  by (auto simp: is_lead_def is_trail_def word_le_nat_alt word_less_nat_alt)

text \<open>The lexer reads a quoted string back, whatever code units it contains.\<close>

lemma lex_string_quote_body:
  "lex_string acc (quote_body s @ 0x22 # rest) = Some (rev acc @ s, rest)"
proof (induction s arbitrary: acc rule: quote_body.induct)
  case 1
  show ?case by simp
next
  case (2 c)
  show ?case by (simp add: lex_string_escape_unit)
next
  case (3 c d cs)
  show ?case
  proof (cases "is_lead c \<and> is_trail d")
    case True
    then have "c \<noteq> 0x22 \<and> c \<noteq> 0x5C \<and> \<not> c < 0x20" "d \<noteq> 0x22 \<and> d \<noteq> 0x5C \<and> \<not> d < 0x20"
      using surrogate_plain by blast+
    moreover from True have "quote_body (c # d # cs) = c # d # quote_body cs" by simp
    ultimately show ?thesis using 3(1)[OF True, of "d # c # acc"] by simp
  next
    case False
    then have "quote_body (c # d # cs) = escape_unit c @ quote_body (d # cs)" by auto
    then show ?thesis using 3(2)[OF False, of "c # acc"]
      by (simp only: append_assoc lex_string_escape_unit rev.simps append.simps)
  qed
qed

lemma lex_punct:
  "lex (0x7B # cs) = emit TLBrace (lex cs)"
  "lex (0x7D # cs) = emit TRBrace (lex cs)"
  "lex (0x5B # cs) = emit TLBrack (lex cs)"
  "lex (0x5D # cs) = emit TRBrack (lex cs)"
  "lex (0x3A # cs) = emit TColon (lex cs)"
  "lex (0x2C # cs) = emit TComma (lex cs)"
  by (simp_all add: is_ws_def)

lemma lex_quoted: "lex (QuoteJSONString s @ rest) = emit (TString s) (lex rest)"
  by (simp add: QuoteJSONString_def is_ws_def lex_string_quote_body)

declare lex.simps [simp del]

lemma lit_punct:
  "lit ''{'' = [0x7B]" "lit ''}'' = [0x7D]" "lit ''['' = [0x5B]" "lit '']'' = [0x5D]"
  "lit '':'' = [0x3A]" "lit '','' = [0x2C]"
  by (simp_all add: lit_def)

lemma stringify_item:
  "JSON_stringify ns (item_val h) =
     lit ''{'' @ QuoteJSONString (lit ''id'') @ lit '':'' @ QuoteJSONString (h_id h) @ lit '','' @
     QuoteJSONString (lit ''fileName'') @ lit '':'' @ QuoteJSONString (h_fileName h) @ lit '','' @
     QuoteJSONString (lit ''date'') @ lit '':'' @ QuoteJSONString (h_date h) @ lit '','' @
     QuoteJSONString (lit ''duration'') @ lit '':'' @ QuoteJSONString (h_duration h) @ lit '','' @
     QuoteJSONString (lit ''fileSize'') @ lit '':'' @ QuoteJSONString (h_fileSize h) @ lit '','' @
     QuoteJSONString (lit ''text'') @ lit '':'' @ QuoteJSONString (h_text h) @ lit '','' @
     QuoteJSONString (lit ''preview'') @ lit '':'' @ QuoteJSONString (h_preview h) @ lit ''}''"
  by (simp add: item_val_def)

lemma lex_item:
  "lex (JSON_stringify ns (item_val h) @ rest) = map_option ((@) (item_tokens h)) (lex rest)"
  unfolding stringify_item lit_punct
  by (simp only: append_assoc append.simps lex_punct lex_quoted)
     (cases "lex rest"; simp add: emit_def item_tokens_def)

lemma join_Cons: "join sep (x # xs) = x @ concat (map (\<lambda>y. sep @ y) xs)"
  by (induction xs arbitrary: x) simp_all

lemma lex_more_items:
  "lex (concat (map (\<lambda>y. lit '','' @ y) (map (\<lambda>h. JSON_stringify ns (item_val h)) items)) @ rest)
     = map_option ((@) (more_tokens items)) (lex rest)"
proof (induction items)
  case Nil
  show ?case by (cases "lex rest") (simp_all add: more_tokens_def)
next
  case (Cons h items)
  show ?case
    using Cons.IH
    by (cases "lex rest") (simp_all add: lit_punct lex_punct lex_item more_tokens_def emit_def)
qed

lemma lex_records:
  "lex (JSON_stringify ns (records items)) = Some (records_tokens items)"
proof (cases items)
  case Nil
  then show ?thesis
    by (simp add: records_def records_tokens_def lit_punct lex_punct emit_def lex.simps(1))
next
  case (Cons h hs)
  have "lex (JSON_stringify ns (records items))
      = lex (0x5B # JSON_stringify ns (item_val h) @
          (concat (map (\<lambda>y. lit '','' @ y) (map (\<lambda>h. JSON_stringify ns (item_val h)) hs)) @ [0x5D]))"
    by (simp add: Cons records_def lit_punct join_Cons comp_def)
  also have "\<dots> = Some (records_tokens items)"
    by (simp only: lex_punct lex_item lex_more_items lex.simps(1))
       (simp add: emit_def records_tokens_def Cons)
  finally show ?thesis .
qed

lemma put_keys:
  "obj_put (lit ''id'') v [] = [(lit ''id'', v)]"
  "obj_put (lit ''fileName'') v [(lit ''id'', a)] = [(lit ''id'', a), (lit ''fileName'', v)]"
  "obj_put (lit ''date'') v [(lit ''id'', a), (lit ''fileName'', b)]
     = [(lit ''id'', a), (lit ''fileName'', b), (lit ''date'', v)]"
  "obj_put (lit ''duration'') v [(lit ''id'', a), (lit ''fileName'', b), (lit ''date'', c)]
     = [(lit ''id'', a), (lit ''fileName'', b), (lit ''date'', c), (lit ''duration'', v)]"
  "obj_put (lit ''fileSize'') v
       [(lit ''id'', a), (lit ''fileName'', b), (lit ''date'', c), (lit ''duration'', d)]
     = [(lit ''id'', a), (lit ''fileName'', b), (lit ''date'', c), (lit ''duration'', d),
        (lit ''fileSize'', v)]"
  "obj_put (lit ''text'') v
       [(lit ''id'', a), (lit ''fileName'', b), (lit ''date'', c), (lit ''duration'', d),
        (lit ''fileSize'', e)]
     = [(lit ''id'', a), (lit ''fileName'', b), (lit ''date'', c), (lit ''duration'', d),
        (lit ''fileSize'', e), (lit ''text'', v)]"
  "obj_put (lit ''preview'') v
       [(lit ''id'', a), (lit ''fileName'', b), (lit ''date'', c), (lit ''duration'', d),
        (lit ''fileSize'', e), (lit ''text'', f)]
     = [(lit ''id'', a), (lit ''fileName'', b), (lit ''date'', c), (lit ''duration'', d),
        (lit ''fileSize'', e), (lit ''text'', f), (lit ''preview'', v)]"
  by (simp_all add: obj_put_def is_array_index_def lit_def is_digit_def)

lemma parse_item:
  "parse_tokens nf (Value st) (item_tokens h @ ts) = parse_tokens nf (deliver (item_val h) st) ts"
  by (simp add: item_tokens_def item_val_def put_keys)

lemma parse_more_items:
  "parse_tokens nf (AfterElem es st) (more_tokens items @ ts)
     = parse_tokens nf (AfterElem (rev (map item_val items) @ es) st) ts"
proof (induction items arbitrary: es)
  case Nil
  show ?case by (simp add: more_tokens_def)
next
  case (Cons h items)
  have "parse_tokens nf (AfterElem es st) (more_tokens (h # items) @ ts)
      = parse_tokens nf (Value (InArr es # st)) (item_tokens h @ more_tokens items @ ts)"
    by (simp add: more_tokens_def)
  also have "\<dots> = parse_tokens nf (AfterElem (item_val h # es) st) (more_tokens items @ ts)"
    by (simp only: parse_item deliver.simps)
  finally show ?case by (simp add: Cons.IH)
qed

lemma parse_records:
  "parse_tokens nf (Value []) (records_tokens items) = Some (Done (records items))"
proof (cases items)
  case Nil
  then show ?thesis by (simp add: records_tokens_def records_def)
next
  case (Cons h hs)
  have "parse_tokens nf (Value []) (records_tokens items)
      = parse_tokens nf (Value [InArr []]) (item_tokens h @ more_tokens hs @ [TRBrack])"
    by (simp add: records_tokens_def Cons item_tokens_def)
  also have "\<dots> = parse_tokens nf (AfterElem [item_val h] []) (more_tokens hs @ [TRBrack])"
    by (simp only: parse_item deliver.simps)
  also have "\<dots> = Some (Done (records items))"
    by (simp only: parse_more_items) (simp add: records_def Cons)
  finally show ?thesis .
qed

text \<open>\<^verbatim>\<open>JSON.parse\<close> reads the JSON text of a record list back as that list.\<close>

lemma parse_stringify_records:
  "JSON_parse nf (JSON_stringify ns (records items)) = Inr (records items)"
  by (simp add: JSON_parse_def lex_records parse_records)

lemma stringify_records_nonempty: "JSON_stringify ns (records items) \<noteq> []"
  by (simp add: records_def lit_punct)

text \<open>A record list contains no number, so its JSON text does not depend on the number
  conversion.\<close>

lemma stringify_records_numbers:
  "JSON_stringify ns (records items :: 'n jsval) = JSON_stringify ns' (records items :: 'm jsval)"
proof -
  have "JSON_stringify ns (item_val h :: 'n jsval) = JSON_stringify ns' (item_val h :: 'm jsval)" for h
    by (simp only: stringify_item)
  then have m: "map (JSON_stringify ns) (map item_val items :: 'n jsval list)
      = map (JSON_stringify ns') (map item_val items :: 'm jsval list)"
    by simp
  show ?thesis unfolding records_def JSON_stringify.simps m ..
qed

lemma stringify_records_stored_text: "JSON_stringify ns (records items) = stored_text items"
  unfolding stored_text_def by (rule stringify_records_numbers)

subsection \<open>Examples\<close>

text \<open>The JSON functions on a few texts: nesting and white space, texts that are not
  JSON, the enumeration order of properties with a repeated key and array indices, and
  the escapes of a quoted string.\<close>

lemmas json_eval =
  JSON_parse_def lex.simps lit_def is_ws_def is_number_char_def is_digit_def emit_def
  valid_number_def valid_fraction_def valid_exponent_def obj_put_def is_array_index_def
  digits_value_def

lemma JSON_parse_nested:
  "JSON_parse id (lit '' [1.5e3, {}, [[]], null, true ,false] '')
     = Inr (JArr [JNum (lit ''1.5e3''), JObj [], JArr [JArr []], JNull, JBool True, JBool False])"
  by (simp add: json_eval)

lemma JSON_parse_rejects:
  "JSON_parse id (lit ''[1,]'') = Inl SyntaxError"
  "JSON_parse id (lit ''[1 2]'') = Inl SyntaxError"
  "JSON_parse id (lit ''01'') = Inl SyntaxError"
  "JSON_parse id (lit ''nul'') = Inl SyntaxError"
  "JSON_parse id (lit ''{,}'') = Inl SyntaxError"
  "JSON_parse id (lit '''') = Inl SyntaxError"
  by (simp_all add: json_eval)

lemma JSON_parse_property_order:
  "JSON_parse id
     (lit ''{'' @ QuoteJSONString (lit ''b'') @ lit '':1,'' @ QuoteJSONString (lit ''10'') @ lit '':2,''
        @ QuoteJSONString (lit ''2'') @ lit '':3,'' @ QuoteJSONString (lit ''b'') @ lit '':4}'')
     = Inr (JObj [(lit ''2'', JNum (lit ''3'')), (lit ''10'', JNum (lit ''2'')),
                  (lit ''b'', JNum (lit ''4''))])"
  by (simp add: json_eval QuoteJSONString_def escape_unit_def is_lead_def is_trail_def)

lemma QuoteJSONString_escapes:
  "QuoteJSONString [0x61, 0x22, 0x0A, 0x01, 0xD800, 0xD83D, 0xDE00]
     = [0x22, 0x61, 0x5C, 0x22, 0x5C, 0x6E, 0x5C] @ lit ''u0001'' @ [0x5C] @ lit ''ud800''
         @ [0xD83D, 0xDE00, 0x22]"
  by (simp add: QuoteJSONString_def escape_unit_def is_lead_def is_trail_def hex4_def
        hexdigit_def lit_def)


section \<open>Properties of the history service\<close>

subsection \<open>Reading, saving and deleting on a stored record list\<close>

lemma list_unfold:
  "getTranscriptionHistory e w =
     (if storage_blocked e then Inr (JArr [])
      else case localStorage w STORAGE_KEY of
             None \<Rightarrow> Inr (JArr [])
           | Some s \<Rightarrow>
               if s = [] then Inr (JArr [])
               else (case JSON_parse (number_of e) s of
                       Inl error \<Rightarrow> Inr (JArr [])
                     | Inr v \<Rightarrow> Inr v))"
  by (simp add: getTranscriptionHistory_def getItem_def try_catch_def
           split: option.splits sum.splits)

lemma list_total: "\<exists>v. getTranscriptionHistory e w = Inr v"
  unfolding list_unfold by (simp split: option.splits sum.splits)

lemma list_stored_text:
  assumes "\<not> storage_blocked e" and "localStorage w STORAGE_KEY = Some (stored_text items)"
  shows "getTranscriptionHistory e w = Inr (records items)"
proof -
  have t: "stored_text items = JSON_stringify (number_str e) (records items)"
    by (simp add: stringify_records_stored_text)
  show ?thesis
    unfolding list_unfold using assms
    by (simp add: t stringify_records_nonempty parse_stringify_records)
qed

lemma list_holds:
  assumes "\<not> storage_blocked e" and "holds w items"
  shows "getTranscriptionHistory e w = Inr (records items)"
proof (cases "localStorage w STORAGE_KEY")
  case None
  with assms show ?thesis by (simp add: list_unfold holds_def records_def)
next
  case (Some s)
  with assms have "localStorage w STORAGE_KEY = Some (stored_text items)"
    by (simp add: holds_def)
  with assms(1) show ?thesis by (rule list_stored_text)
qed

lemma list_blocked: "storage_blocked e \<Longrightarrow> getTranscriptionHistory e w = Inr (JArr [])"
  by (simp add: list_unfold)

lemma spread_records: "spread (records items) = Inr (map item_val items)"
  by (simp add: records_def)

lemma save_unfold:
  assumes "getTranscriptionHistory e w = Inr (records items)"
  shows "saveTranscription e r w =
     (if storage_blocked e
         \<or> quota_exceeded e STORAGE_KEY (stored_text (take 100 (historyItem e r # items)))
      then Inr w
      else Inr (w\<lparr>localStorage := (localStorage w)
                  (STORAGE_KEY \<mapsto> stored_text (take 100 (historyItem e r # items)))\<rparr>))"
proof -
  have "JSON_stringify (number_str e)
          (JArr (take 100 (item_val (historyItem e r) # map item_val items)))
        = stored_text (take 100 (historyItem e r # items))"
    using stringify_records_stored_text[of "number_str e" "take 100 (historyItem e r # items)"]
    by (simp add: records_def take_map)
  then show ?thesis
    by (simp add: saveTranscription_def assms spread_records setItem_def try_catch_def Let_def)
qed

lemma get_id_item: "get_id (item_val h) = Inr (Some (JStr (h_id h)))"
  by (simp add: item_val_def)

lemma filter_items_records:
  "filter_items i (map item_val items) = Inr (map item_val (filter (\<lambda>h. h_id h \<noteq> i) items))"
  by (induction items) (simp_all add: get_id_item)

lemma delete_unfold:
  assumes "getTranscriptionHistory e w = Inr (records items)"
  shows "deleteTranscription e i w =
     (if storage_blocked e
         \<or> quota_exceeded e STORAGE_KEY (stored_text (filter (\<lambda>h. h_id h \<noteq> i) items))
      then Inr w
      else Inr (w\<lparr>localStorage := (localStorage w)
                  (STORAGE_KEY \<mapsto> stored_text (filter (\<lambda>h. h_id h \<noteq> i) items))\<rparr>))"
proof -
  have "JSON_stringify (number_str e) (JArr (map item_val (filter (\<lambda>h. h_id h \<noteq> i) items)))
        = stored_text (filter (\<lambda>h. h_id h \<noteq> i) items)"
    using stringify_records_stored_text[of "number_str e" "filter (\<lambda>h. h_id h \<noteq> i) items"]
    by (simp add: records_def)
  then show ?thesis
    by (simp add: deleteTranscription_def assms records_def filter_items_records setItem_def
          try_catch_def)
qed

lemma list_after_write:
  assumes "\<not> storage_blocked e"
  shows "getTranscriptionHistory e
           (w\<lparr>localStorage := (localStorage w)(STORAGE_KEY \<mapsto> stored_text items)\<rparr>)
         = Inr (records items)"
  using assms by (intro list_stored_text) simp_all

lemma delete_then_list:
  assumes "getTranscriptionHistory e w = Inr (records items)"
    and "\<not> storage_blocked e"
    and "\<not> quota_exceeded e STORAGE_KEY
            (JSON_stringify (number_str e) (records (filter (\<lambda>h. h_id h \<noteq> i) items)))"
  shows "\<exists>w'. deleteTranscription e i w = Inr w'
           \<and> getTranscriptionHistory e w' = Inr (records (filter (\<lambda>h. h_id h \<noteq> i) items))"
proof -
  let ?new = "filter (\<lambda>h. h_id h \<noteq> i) items"
  have q: "\<not> quota_exceeded e STORAGE_KEY (stored_text ?new)"
    using assms(3) by (simp add: stringify_records_stored_text)
  have "deleteTranscription e i w
        = Inr (w\<lparr>localStorage := (localStorage w)(STORAGE_KEY \<mapsto> stored_text ?new)\<rparr>)"
    using assms(2) q by (simp add: delete_unfold[OF assms(1)])
  moreover have "getTranscriptionHistory e
        (w\<lparr>localStorage := (localStorage w)(STORAGE_KEY \<mapsto> stored_text ?new)\<rparr>)
        = Inr (records ?new)"
    using assms(2) by (rule list_after_write)
  ultimately show ?thesis by simp
qed

lemma delete_absent_unchanged:
  assumes "getTranscriptionHistory e w = Inr (records items)"
    and "i \<notin> h_id ` set items"
  shows "\<exists>w'. deleteTranscription e i w = Inr w'
           \<and> getTranscriptionHistory e w' = Inr (records items)"
proof -
  from assms(2) have f: "filter (\<lambda>h. h_id h \<noteq> i) items = items"
    by (induction items) auto
  show ?thesis
  proof (cases "storage_blocked e
         \<or> quota_exceeded e STORAGE_KEY (stored_text (filter (\<lambda>h. h_id h \<noteq> i) items))")
    case True
    then have "deleteTranscription e i w = Inr w"
      by (simp add: delete_unfold[OF assms(1)])
    with assms(1) show ?thesis by simp
  next
    case False
    then have "deleteTranscription e i w
        = Inr (w\<lparr>localStorage := (localStorage w)(STORAGE_KEY \<mapsto> stored_text items)\<rparr>)"
      by (simp add: delete_unfold[OF assms(1)] f)
    moreover from False have "getTranscriptionHistory e
        (w\<lparr>localStorage := (localStorage w)(STORAGE_KEY \<mapsto> stored_text items)\<rparr>)
        = Inr (records items)"
      by (intro list_after_write) simp
    ultimately show ?thesis by simp
  qed
qed

lemma parse_empty: "JSON_parse nf [] = Inl SyntaxError"
  by (simp add: JSON_parse_def lex.simps)

text \<open>A stored text that is well-formed JSON but not an array is not a stored record
  list: with the text \<^verbatim>\<open>{}\<close> under the key, the spread in a save and the filter in
  a delete raise a \<^verbatim>\<open>TypeError\<close>, which is caught, and nothing is written.\<close>

lemma save_on_object_is_dropped:
  "saveTranscription browser sample_result (world_with (lit ''{}'')) = Inr (world_with (lit ''{}''))"
  by (simp add: saveTranscription_def list_unfold browser_def world_with_def try_catch_def
        json_eval)

lemma delete_on_object_is_dropped:
  "deleteTranscription browser (lit ''a'') (world_with (lit ''{}'')) = Inr (world_with (lit ''{}''))"
  by (simp add: deleteTranscription_def list_unfold browser_def world_with_def try_catch_def
        json_eval)

subsection \<open>The sample data\<close>

lemma browser_works:
  "\<not> storage_blocked browser" "\<not> quota_exceeded browser k v" "\<not> createObjectURL_fails browser"
  by (simp_all add: browser_def)

lemma list_world_with:
  "getTranscriptionHistory browser (world_with (stored_text items)) = Inr (records items)"
  by (rule list_stored_text) (simp_all add: browser_works world_with_def)

lemma sample_ids:
  "h_id item_a = lit ''a''" "h_id item_b = lit ''b''" "h_id item_a2 = lit ''a''"
  "lit ''a'' \<noteq> lit ''b''" "lit ''b'' \<noteq> lit ''a''" "lit ''zzz'' \<noteq> lit ''a''" "lit ''zzz'' \<noteq> lit ''b''"
  by (simp_all add: item_a_def item_b_def item_a2_def lit_def)

lemma saves_101_facts:
  "length saves_101 = 101"
  "\<forall>(e, c) \<in> set saves_101. \<not> storage_blocked e
      \<and> (\<forall>v. \<not> quota_exceeded e STORAGE_KEY v) \<and> (\<exists>r. c = Save r)"
  "distinct (map snd saves_101)"
proof -
  show "length saves_101 = 101" by (simp add: saves_101_def)
  show "\<forall>(e, c) \<in> set saves_101. \<not> storage_blocked e
      \<and> (\<forall>v. \<not> quota_exceeded e STORAGE_KEY v) \<and> (\<exists>r. c = Save r)"
    by (auto simp: saves_101_def browser_works)
  have "inj_on (\<lambda>n. Save (sample_result\<lparr>r_text := replicate n 0x61\<rparr>)) (set [0..<101])"
    by (rule inj_onI) (simp add: sample_result_def replicate_eq_replicate)
  then show "distinct (map snd saves_101)"
    by (simp add: saves_101_def comp_def distinct_map)
qed

subsection \<open>The preview\<close>

text \<open>
  Claim C3. The preview of the record that a save builds is the first 150 code units of
  the text, followed by the three-character marker \<^verbatim>\<open>...\<close> when the text is longer than
  150, and the text itself otherwise; for a text of length 200 the preview has length 153.
\<close>

theorem preview_truncates_at_150:
  "h_preview (historyItem e r) =
     take 150 (r_text r) @ (if length (r_text r) > 150 then lit ''...'' else [])
   \<and> length (lit ''...'') = 3
   \<and> (length (r_text r) \<le> 150 \<longrightarrow> h_preview (historyItem e r) = r_text r)
   \<and> (length (r_text r) > 150 \<longrightarrow> length (h_preview (historyItem e r)) = 153)
   \<and> (length (r_text r) = 200 \<longrightarrow> length (h_preview (historyItem e r)) = 153)"
  by (simp add: historyItem_def preview_of_def substring_def lit_def)

theorem preview_truncates_at_150_witness:
  "length (r_text (sample_result\<lparr>r_text := replicate 200 0x61\<rparr>)) = 200
   \<and> length (h_preview (historyItem browser (sample_result\<lparr>r_text := replicate 200 0x61\<rparr>))) = 153
   \<and> h_preview (historyItem browser (sample_result\<lparr>r_text := replicate 200 0x61\<rparr>))
       = replicate 150 0x61 @ lit ''...''
   \<and> length (r_text sample_result) \<le> 150
   \<and> h_preview (historyItem browser sample_result) = lit ''Hello, world.''"
  using preview_truncates_at_150[of browser "sample_result\<lparr>r_text := replicate 200 0x61\<rparr>"]
        preview_truncates_at_150[of browser sample_result]
  by (simp add: sample_result_def lit_def)

subsection \<open>Saving\<close>



text \<open>
  Claim C10. When the key holds text that \<^verbatim>\<open>JSON.parse\<close> rejects and storage accepts
  the write, a save succeeds and replaces the text with the JSON text of the one-element
  list of the new record.
\<close>

theorem save_overwrites_corrupt_storage:
  assumes "localStorage w STORAGE_KEY = Some s"
    and "JSON_parse (number_of e) s = Inl error"
    and "\<not> storage_blocked e"
    and "\<not> quota_exceeded e STORAGE_KEY (JSON_stringify (number_str e) (records [historyItem e r]))"
  shows "\<exists>w'. saveTranscription e r w = Inr w'
           \<and> localStorage w' STORAGE_KEY
               = Some (JSON_stringify (number_str e) (records [historyItem e r]))
           \<and> getTranscriptionHistory e w' = Inr (records [historyItem e r])"
proof -
  have l: "getTranscriptionHistory e w = Inr (records [])"
    using assms(1,2,3) by (simp add: list_unfold records_def)
  have q: "\<not> quota_exceeded e STORAGE_KEY (stored_text [historyItem e r])"
    using assms(4) by (simp add: stringify_records_stored_text)
  have "saveTranscription e r w
        = Inr (w\<lparr>localStorage := (localStorage w)(STORAGE_KEY \<mapsto> stored_text [historyItem e r])\<rparr>)"
    using assms(3) q by (simp add: save_unfold[OF l])
  moreover have "getTranscriptionHistory e
        (w\<lparr>localStorage := (localStorage w)(STORAGE_KEY \<mapsto> stored_text [historyItem e r])\<rparr>)
        = Inr (records [historyItem e r])"
    using assms(3) by (rule list_after_write)
  ultimately show ?thesis by (simp add: stringify_records_stored_text)
qed

theorem save_overwrites_corrupt_storage_witness:
  "localStorage (world_with (lit ''{broken'')) STORAGE_KEY = Some (lit ''{broken'')
   \<and> JSON_parse (number_of browser) (lit ''{broken'') = Inl SyntaxError
   \<and> (\<exists>w'. saveTranscription browser sample_result (world_with (lit ''{broken'')) = Inr w'
          \<and> localStorage w' STORAGE_KEY
              = Some (JSON_stringify (number_str browser) (records [sample_item]))
          \<and> getTranscriptionHistory browser w' = Inr (records [sample_item]))"
proof -
  have a: "localStorage (world_with (lit ''{broken'')) STORAGE_KEY = Some (lit ''{broken'')"
    by (simp add: world_with_def)
  have b: "JSON_parse (number_of browser) (lit ''{broken'') = Inl SyntaxError"
    by (simp add: JSON_parse_def lex.simps lit_def is_ws_def is_number_char_def is_digit_def
          emit_def)
  show ?thesis
    using save_overwrites_corrupt_storage
            [where r = sample_result, OF a b browser_works(1) browser_works(2)] a b
    by (simp add: sample_item_def)
qed

subsection \<open>Deleting\<close>

text \<open>
  Claim C4. On a stored record list, when storage accepts the write, a delete leaves
  exactly the records whose id differs from the given one, in their order; when no record
  has the given id, the listing after the delete is the listing before it, whether or not
  the write succeeds; the call returns normally.
\<close>

theorem delete_removes_only_that_id:
  assumes "getTranscriptionHistory e w = Inr (records items)"
  shows "(\<not> storage_blocked e
          \<and> \<not> quota_exceeded e STORAGE_KEY
                (JSON_stringify (number_str e) (records (filter (\<lambda>h. h_id h \<noteq> i) items)))
          \<longrightarrow> (\<exists>w'. deleteTranscription e i w = Inr w'
                 \<and> getTranscriptionHistory e w' = Inr (records (filter (\<lambda>h. h_id h \<noteq> i) items))))
       \<and> subseq (filter (\<lambda>h. h_id h \<noteq> i) items) items
       \<and> set (filter (\<lambda>h. h_id h \<noteq> i) items) = {h \<in> set items. h_id h \<noteq> i}
       \<and> (i \<notin> h_id ` set items
          \<longrightarrow> (\<exists>w'. deleteTranscription e i w = Inr w'
                 \<and> getTranscriptionHistory e w' = Inr (records items)))"
  using delete_then_list[OF assms, of i] delete_absent_unchanged[OF assms, of i]
  by auto

theorem delete_removes_only_that_id_witness:
  "getTranscriptionHistory browser (world_with (stored_text [item_a, item_b, item_a2]))
     = Inr (records [item_a, item_b, item_a2])
   \<and> (\<exists>w'. deleteTranscription browser (lit ''b'') (world_with (stored_text [item_a, item_b, item_a2]))
            = Inr w'
          \<and> getTranscriptionHistory browser w' = Inr (records [item_a, item_a2]))
   \<and> lit ''zzz'' \<notin> h_id ` set [item_a, item_b, item_a2]
   \<and> (\<exists>w'. deleteTranscription browser (lit ''zzz'') (world_with (stored_text [item_a, item_b, item_a2]))
            = Inr w'
          \<and> getTranscriptionHistory browser w' = Inr (records [item_a, item_b, item_a2]))"
  using delete_removes_only_that_id
          [where e = browser and items = "[item_a, item_b, item_a2]" and i = "lit ''b''",
           OF list_world_with]
        delete_removes_only_that_id
          [where e = browser and items = "[item_a, item_b, item_a2]" and i = "lit ''zzz''",
           OF list_world_with]
  by (simp add: list_world_with browser_works sample_ids)

text \<open>
  Claim C9. On a stored record list, when storage accepts the write, no record with the
  given id remains after a delete: every record with that id is removed, however many
  there are.
\<close>

theorem delete_leaves_no_record_with_id:
  assumes "getTranscriptionHistory e w = Inr (records items)"
    and "\<not> storage_blocked e"
    and "\<not> quota_exceeded e STORAGE_KEY
            (JSON_stringify (number_str e) (records (filter (\<lambda>h. h_id h \<noteq> i) items)))"
  shows "\<exists>w'. deleteTranscription e i w = Inr w'
           \<and> getTranscriptionHistory e w' = Inr (records (filter (\<lambda>h. h_id h \<noteq> i) items))
           \<and> i \<notin> h_id ` set (filter (\<lambda>h. h_id h \<noteq> i) items)
           \<and> length (filter (\<lambda>h. h_id h \<noteq> i) items)
               = length items - length (filter (\<lambda>h. h_id h = i) items)"
proof -
  have "length (filter (\<lambda>h. h_id h \<noteq> i) items)
        = length items - length (filter (\<lambda>h. h_id h = i) items)"
    using sum_length_filter_compl[of "\<lambda>h. h_id h = i" items] by simp
  with delete_then_list[OF assms] show ?thesis by auto
qed

theorem delete_leaves_no_record_with_id_witness:
  "getTranscriptionHistory browser (world_with (stored_text [item_a, item_b, item_a2]))
     = Inr (records [item_a, item_b, item_a2])
   \<and> (\<exists>w'. deleteTranscription browser (lit ''a'') (world_with (stored_text [item_a, item_b, item_a2]))
            = Inr w'
          \<and> getTranscriptionHistory browser w' = Inr (records [item_b]))
   \<and> length [item_b] = length [item_a, item_b, item_a2] - 2"
  using delete_leaves_no_record_with_id
          [where e = browser and items = "[item_a, item_b, item_a2]" and i = "lit ''a''",
           OF list_world_with browser_works(1) browser_works(2)]
  by (simp add: list_world_with sample_ids)

subsection \<open>Listing and clearing\<close>

text \<open>
  Claim C5, as amended. A listing never raises. It returns the empty sequence when the
  key is absent, when the stored string is empty, when access to storage fails, and when
  \<^verbatim>\<open>JSON.parse\<close> rejects the stored string; when the stored string is the JSON text of
  an array, it returns that array.

  The claim as stated, that a listing returns a sequence for every content of the key,
  fails for a string that is well-formed JSON but not an array: for the stored text
  \<^verbatim>\<open>{}\<close> the listing returns an object.
\<close>

theorem list_never_raises:
  "(\<exists>v. getTranscriptionHistory e w = Inr v)
   \<and> (localStorage w STORAGE_KEY = None \<longrightarrow> getTranscriptionHistory e w = Inr (JArr []))
   \<and> (localStorage w STORAGE_KEY = Some [] \<longrightarrow> getTranscriptionHistory e w = Inr (JArr []))
   \<and> (storage_blocked e \<longrightarrow> getTranscriptionHistory e w = Inr (JArr []))
   \<and> (\<forall>s error. localStorage w STORAGE_KEY = Some s \<and> JSON_parse (number_of e) s = Inl error
         \<longrightarrow> getTranscriptionHistory e w = Inr (JArr []))
   \<and> (\<forall>s vs. \<not> storage_blocked e \<and> localStorage w STORAGE_KEY = Some s
               \<and> JSON_parse (number_of e) s = Inr (JArr vs)
         \<longrightarrow> getTranscriptionHistory e w = Inr (JArr vs))"
proof -
  have "JSON_parse (number_of e) s = Inr (JArr vs) \<Longrightarrow> s \<noteq> []" for s vs
    using parse_empty[of "number_of e"] by auto
  then show ?thesis
    using list_total[of e w] by (auto simp: list_unfold split: if_splits)
qed

theorem list_never_raises_witness:
  "localStorage (world_with (lit ''{broken'')) STORAGE_KEY = Some (lit ''{broken'')
   \<and> JSON_parse (number_of browser) (lit ''{broken'') = Inl SyntaxError
   \<and> getTranscriptionHistory browser (world_with (lit ''{broken'')) = Inr (JArr [])
   \<and> storage_blocked blocked_browser
   \<and> getTranscriptionHistory blocked_browser (world_with (lit ''[null]'')) = Inr (JArr [])
   \<and> \<not> storage_blocked browser
   \<and> JSON_parse (number_of browser) (lit ''[null]'') = Inr (JArr [JNull])
   \<and> getTranscriptionHistory browser (world_with (lit ''[null]'')) = Inr (JArr [JNull])
   \<and> localStorage empty_world STORAGE_KEY = None
   \<and> getTranscriptionHistory browser empty_world = Inr (JArr [])
   \<and> localStorage (world_with []) STORAGE_KEY = Some []
   \<and> getTranscriptionHistory browser (world_with []) = Inr (JArr [])"
proof -
  have a: "localStorage (world_with (lit ''{broken'')) STORAGE_KEY = Some (lit ''{broken'')"
    by (simp add: world_with_def)
  have b: "JSON_parse (number_of browser) (lit ''{broken'') = Inl SyntaxError"
    by (simp add: JSON_parse_def lex.simps lit_def is_ws_def is_number_char_def is_digit_def
          emit_def)
  have c: "storage_blocked blocked_browser" "\<not> storage_blocked browser"
    by (simp_all add: blocked_browser_def browser_def)
  have d: "localStorage (world_with (lit ''[null]'')) STORAGE_KEY = Some (lit ''[null]'')"
    by (simp add: world_with_def)
  have f: "JSON_parse (number_of browser) (lit ''[null]'') = Inr (JArr [JNull])"
    by (simp add: JSON_parse_def lex.simps lit_def is_ws_def is_number_char_def is_digit_def
          emit_def)
  have g: "localStorage empty_world STORAGE_KEY = None"
    by (simp add: empty_world_def)
  have t1: "getTranscriptionHistory browser (world_with (lit ''{broken'')) = Inr (JArr [])"
    using list_never_raises[of browser "world_with (lit ''{broken'')"] a b by blast
  have t2: "getTranscriptionHistory blocked_browser (world_with (lit ''[null]'')) = Inr (JArr [])"
    using list_never_raises[of blocked_browser "world_with (lit ''[null]'')"] c(1) by blast
  have t3: "getTranscriptionHistory browser (world_with (lit ''[null]'')) = Inr (JArr [JNull])"
    using list_never_raises[of browser "world_with (lit ''[null]'')"] c(2) d f by blast
  have t4: "getTranscriptionHistory browser empty_world = Inr (JArr [])"
    using list_never_raises[of browser empty_world] g by blast
  have h: "localStorage (world_with []) STORAGE_KEY = Some []"
    by (simp add: world_with_def)
  have t5: "getTranscriptionHistory browser (world_with []) = Inr (JArr [])"
    using list_never_raises[of browser "world_with []"] h by blast
  from a b c d f g h t1 t2 t3 t4 t5 show ?thesis by simp
qed

theorem list_returns_object_counterexample:
  "getTranscriptionHistory browser (world_with (lit ''{}'')) = Inr (JObj [])"
  by (simp add: list_unfold browser_def world_with_def lit_def JSON_parse_def lex.simps
        is_ws_def emit_def)

text \<open>
  Claim C7. A clear followed by a listing returns the empty sequence. When access to
  storage does not fail, the clear removes the key and leaves every other key as it was,
  and any later listing is empty.
\<close>

theorem clear_then_list_is_empty:
  "\<exists>w'. clearAllHistory e w = Inr w'
     \<and> getTranscriptionHistory e w' = Inr (JArr [])
     \<and> (\<not> storage_blocked e \<longrightarrow>
          localStorage w' STORAGE_KEY = None
          \<and> (\<forall>k. k \<noteq> STORAGE_KEY \<longrightarrow> localStorage w' k = localStorage w k)
          \<and> (\<forall>e' :: 'm env. getTranscriptionHistory e' w' = Inr (JArr [])))"
  by (simp add: clearAllHistory_def removeItem_def try_catch_def list_unfold)

theorem clear_then_list_is_empty_witness:
  "\<not> storage_blocked browser
   \<and> (\<exists>w'. clearAllHistory browser (world_with (stored_text [item_a])) = Inr w'
          \<and> getTranscriptionHistory browser w' = Inr (JArr [])
          \<and> localStorage w' STORAGE_KEY = None)"
  using clear_then_list_is_empty[of browser "world_with (stored_text [item_a])"]
  by (auto simp: browser_works)

subsection \<open>Failures\<close>

lemma save_total:
  "\<exists>w'. saveTranscription e r w = Inr w' \<and> (w' = w \<or> (\<exists>v. setItem e STORAGE_KEY v w = Inr w'))"
  by (auto simp: saveTranscription_def try_catch_def Let_def split: sum.splits)

lemma delete_total:
  "\<exists>w'. deleteTranscription e i w = Inr w' \<and> (w' = w \<or> (\<exists>v. setItem e STORAGE_KEY v w = Inr w'))"
  by (auto simp: deleteTranscription_def try_catch_def split: sum.splits)

lemma clear_total:
  "\<exists>w'. clearAllHistory e w = Inr w' \<and> (w' = w \<or> removeItem e STORAGE_KEY w = Inr w')"
  by (auto simp: clearAllHistory_def try_catch_def split: sum.splits)

lemma download_total:
  "\<exists>w'. downloadTranscription e h w = Inr w' \<and> localStorage w' = localStorage w"
  by (simp add: downloadTranscription_def try_catch_def)

lemma save_write_fails:
  assumes "getTranscriptionHistory e w = Inr existing" and "spread existing = Inr rest"
    and "setItem e STORAGE_KEY
           (JSON_stringify (number_str e)
              (JArr (take 100 (item_val (historyItem e r) # rest)))) w = Inl error"
  shows "saveTranscription e r w = Inr w"
  using assms by (simp add: saveTranscription_def try_catch_def Let_def)

lemma delete_write_fails:
  assumes "getTranscriptionHistory e w = Inr history" and "history_filter i history = Inr kept"
    and "setItem e STORAGE_KEY (JSON_stringify (number_str e) (JArr kept)) w = Inl error"
  shows "deleteTranscription e i w = Inr w"
  using assms by (simp add: deleteTranscription_def try_catch_def)


text \<open>
  Claim C6. Each of the five operations returns normally in every environment and every
  state of storage. A save, a delete and a clear leave the world as it was or as one
  completed write left it. When the write of a save or of a delete raises, or the removal
  of a clear does, the world is unchanged. An export never changes storage.
\<close>

theorem failures_are_caught:
  "(\<exists>v. getTranscriptionHistory e w = Inr v)
   \<and> (\<exists>w'. saveTranscription e r w = Inr w'
          \<and> (w' = w \<or> (\<exists>v. setItem e STORAGE_KEY v w = Inr w')))
   \<and> (\<exists>w'. deleteTranscription e i w = Inr w'
          \<and> (w' = w \<or> (\<exists>v. setItem e STORAGE_KEY v w = Inr w')))
   \<and> (\<exists>w'. clearAllHistory e w = Inr w'
          \<and> (w' = w \<or> removeItem e STORAGE_KEY w = Inr w'))
   \<and> (\<exists>w'. downloadTranscription e h w = Inr w' \<and> localStorage w' = localStorage w)
   \<and> (\<forall>existing rest error.
         getTranscriptionHistory e w = Inr existing \<and> spread existing = Inr rest
         \<and> setItem e STORAGE_KEY
             (JSON_stringify (number_str e)
                (JArr (take 100 (item_val (historyItem e r) # rest)))) w = Inl error
         \<longrightarrow> saveTranscription e r w = Inr w)
   \<and> (\<forall>history kept error.
         getTranscriptionHistory e w = Inr history \<and> history_filter i history = Inr kept
         \<and> setItem e STORAGE_KEY (JSON_stringify (number_str e) (JArr kept)) w = Inl error
         \<longrightarrow> deleteTranscription e i w = Inr w)
   \<and> (\<forall>error. removeItem e STORAGE_KEY w = Inl error \<longrightarrow> clearAllHistory e w = Inr w)"
  using list_total[of e w] save_total[of e r w] delete_total[of e i w] clear_total[of e w]
    download_total[of e h w] save_write_fails[of e w _ _ r] delete_write_fails[of e w _ i]
  by (simp add: clearAllHistory_def try_catch_def)


theorem failures_are_caught_witness:
  "getTranscriptionHistory full_browser empty_world = Inr (JArr [])
   \<and> spread (JArr [] :: jsstring jsval) = Inr []
   \<and> setItem full_browser STORAGE_KEY
        (JSON_stringify (number_str full_browser)
           (JArr (take 100 [item_val (historyItem full_browser sample_result)]))) empty_world
       = Inl QuotaExceededError
   \<and> saveTranscription full_browser sample_result empty_world = Inr empty_world
   \<and> history_filter (lit ''a'') (JArr [] :: jsstring jsval) = Inr []
   \<and> deleteTranscription full_browser (lit ''a'') empty_world = Inr empty_world
   \<and> removeItem blocked_browser STORAGE_KEY (world_with (lit ''[]'')) = Inl SecurityError
   \<and> clearAllHistory blocked_browser (world_with (lit ''[]'')) = Inr (world_with (lit ''[]''))"
proof -
  have a: "getTranscriptionHistory full_browser empty_world = Inr (JArr [])"
    by (simp add: list_unfold empty_world_def)
  have b: "setItem full_browser STORAGE_KEY v empty_world = Inl QuotaExceededError" for v
    by (simp add: setItem_def full_browser_def browser_def)
  have c: "removeItem blocked_browser STORAGE_KEY (world_with (lit ''[]'')) = Inl SecurityError"
    by (simp add: removeItem_def blocked_browser_def)
  have d: "spread (JArr [] :: jsstring jsval) = Inr []"
    "history_filter (lit ''a'') (JArr [] :: jsstring jsval) = Inr []"
    by simp_all
  have t1: "saveTranscription full_browser sample_result empty_world = Inr empty_world"
    using failures_are_caught
            [where e = full_browser and w = empty_world and r = sample_result and i = "lit ''a''"]
          a b d(1)
    by blast
  have t2: "deleteTranscription full_browser (lit ''a'') empty_world = Inr empty_world"
    using failures_are_caught
            [where e = full_browser and w = empty_world and r = sample_result and i = "lit ''a''"]
          a b d(2)
    by blast
  have t3: "clearAllHistory blocked_browser (world_with (lit ''[]'')) = Inr (world_with (lit ''[]''))"
    using failures_are_caught[where e = blocked_browser and w = "world_with (lit ''[]'')"] c
    by blast
  from a b c d t1 t2 t3 show ?thesis by simp
qed

subsection \<open>Exporting\<close>

lemma replace_extension_strips:
  assumes "x \<noteq> []" and "\<forall>d \<in> set x. d \<noteq> 0x2E \<and> d \<noteq> 0x2F"
  shows "replace_extension (p @ 0x2E # x) = p"
proof (induction p)
  case Nil
  from assms show ?case by (auto simp: extension_matches_def list_all_iff)
next
  case (Cons c p)
  have "\<not> extension_matches (c # p @ 0x2E # x)"
    by (simp add: extension_matches_def)
  with Cons show ?case by simp
qed

lemma replace_extension_keeps:
  assumes "\<not> (\<exists>p x. s = p @ 0x2E # x \<and> x \<noteq> [] \<and> (\<forall>d \<in> set x. d \<noteq> 0x2E \<and> d \<noteq> 0x2F))"
  shows "replace_extension s = s"
  using assms
proof (induction s)
  case Nil
  show ?case by simp
next
  case (Cons c cs)
  have m: "\<not> extension_matches (c # cs)"
  proof
    assume "extension_matches (c # cs)"
    then have "c # cs = [] @ 0x2E # cs \<and> cs \<noteq> [] \<and> (\<forall>d \<in> set cs. d \<noteq> 0x2E \<and> d \<noteq> 0x2F)"
      by (auto simp: extension_matches_def list_all_iff)
    with Cons.prems show False by blast
  qed
  have "\<not> (\<exists>p x. cs = p @ 0x2E # x \<and> x \<noteq> [] \<and> (\<forall>d \<in> set x. d \<noteq> 0x2E \<and> d \<noteq> 0x2F))"
  proof
    assume "\<exists>p x. cs = p @ 0x2E # x \<and> x \<noteq> [] \<and> (\<forall>d \<in> set x. d \<noteq> 0x2E \<and> d \<noteq> 0x2F)"
    then obtain p x where "cs = p @ 0x2E # x" "x \<noteq> []" "\<forall>d \<in> set x. d \<noteq> 0x2E \<and> d \<noteq> 0x2F"
      by blast
    then have "c # cs = (c # p) @ 0x2E # x \<and> x \<noteq> [] \<and> (\<forall>d \<in> set x. d \<noteq> 0x2E \<and> d \<noteq> 0x2F)"
      by simp
    with Cons.prems show False by blast
  qed
  with Cons.IH m show ?case by simp
qed


lemma toUSVString_well_formed: "isWellFormed s \<Longrightarrow> toUSVString s = s"
  by (induction s rule: toUSVString.induct) (auto split: if_splits)

lemma UTF8_examples:
  "UTF8 (lit ''Hi'') = [0x48, 0x69]"
  "UTF8 [0xE9] = [0xC3, 0xA9]"
  "UTF8 [0x20AC] = [0xE2, 0x82, 0xAC]"
  "UTF8 [0xD83D, 0xDE00] = [0xF0, 0x9F, 0x98, 0x80]"
  "UTF8 [0xFFFD] = [0xEF, 0xBF, 0xBD]"
  by (simp_all add: UTF8_def utf8_encode_def code_point_value_def is_lead_def is_trail_def
        lit_def)

text \<open>
  Claim C8, as amended. When \<^verbatim>\<open>URL.createObjectURL\<close> does not raise, an export starts
  one download. Its name is the file name of the record without its extension, followed by
  \<^verbatim>\<open>_transcript.txt\<close>; the extension is a final dot followed by one or more characters
  that are neither dot nor slash, and a file name without one is kept whole. Its content
  is the UTF-8 encoding of the text of the record in which every surrogate that is not
  part of a pair is replaced by U+FFFD; a well-formed text is encoded as it is. An export
  leaves storage, and so every listing, as it was.

  The claim as stated, that the content is exactly the text of the record, fails for a
  text with an unpaired surrogate: the texts \<^verbatim>\<open>a\<close>, U+D800, \<^verbatim>\<open>b\<close> and \<^verbatim>\<open>a\<close>, U+FFFD,
  \<^verbatim>\<open>b\<close> give the same content.
\<close>

theorem download_named_after_file:
  "(\<not> createObjectURL_fails e \<longrightarrow>
      downloadTranscription e item w =
        Inr (w\<lparr>downloads := downloads w @
               [\<lparr> download_name = replace_extension (h_fileName item) @ lit ''_transcript.txt'',
                  blob_content = UTF8 (toUSVString (h_text item)),
                  blob_type = lit ''text/plain'' \<rparr>]\<rparr>))
   \<and> (isWellFormed (h_text item) \<longrightarrow> toUSVString (h_text item) = h_text item)
   \<and> (\<forall>p x. h_fileName item = p @ 0x2E # x \<and> x \<noteq> [] \<and> (\<forall>d \<in> set x. d \<noteq> 0x2E \<and> d \<noteq> 0x2F)
         \<longrightarrow> replace_extension (h_fileName item) = p)
   \<and> ((\<nexists>p x. h_fileName item = p @ 0x2E # x \<and> x \<noteq> [] \<and> (\<forall>d \<in> set x. d \<noteq> 0x2E \<and> d \<noteq> 0x2F))
         \<longrightarrow> replace_extension (h_fileName item) = h_fileName item)
   \<and> (\<exists>w'. downloadTranscription e item w = Inr w'
          \<and> localStorage w' = localStorage w
          \<and> (\<forall>e' :: 'm env. getTranscriptionHistory e' w' = getTranscriptionHistory e' w))"
proof (intro conjI)
  show "\<not> createObjectURL_fails e \<longrightarrow>
      downloadTranscription e item w =
        Inr (w\<lparr>downloads := downloads w @
               [\<lparr> download_name = replace_extension (h_fileName item) @ lit ''_transcript.txt'',
                  blob_content = UTF8 (toUSVString (h_text item)),
                  blob_type = lit ''text/plain'' \<rparr>]\<rparr>)"
    by (simp add: downloadTranscription_def try_catch_def Blob_content_def)
  show "isWellFormed (h_text item) \<longrightarrow> toUSVString (h_text item) = h_text item"
    by (simp add: toUSVString_well_formed)
  show "\<forall>p x. h_fileName item = p @ 0x2E # x \<and> x \<noteq> [] \<and> (\<forall>d \<in> set x. d \<noteq> 0x2E \<and> d \<noteq> 0x2F)
         \<longrightarrow> replace_extension (h_fileName item) = p"
    using replace_extension_strips by auto
  show "(\<nexists>p x. h_fileName item = p @ 0x2E # x \<and> x \<noteq> [] \<and> (\<forall>d \<in> set x. d \<noteq> 0x2E \<and> d \<noteq> 0x2F))
         \<longrightarrow> replace_extension (h_fileName item) = h_fileName item"
    using replace_extension_keeps by blast
  show "\<exists>w'. downloadTranscription e item w = Inr w'
          \<and> localStorage w' = localStorage w
          \<and> (\<forall>e' :: 'm env. getTranscriptionHistory e' w' = getTranscriptionHistory e' w)"
    by (simp add: downloadTranscription_def try_catch_def list_unfold)
qed

theorem download_named_after_file_witness:
  "\<not> createObjectURL_fails browser
   \<and> h_fileName sample_item = lit ''interview'' @ 0x2E # lit ''mp3''
   \<and> replace_extension (h_fileName sample_item) = lit ''interview''
   \<and> isWellFormed (h_text sample_item)
   \<and> toUSVString (h_text sample_item) = lit ''Hello, world.''
   \<and> downloadTranscription browser sample_item empty_world =
        Inr (empty_world\<lparr>downloads :=
               [\<lparr> download_name = lit ''interview_transcript.txt'',
                  blob_content = [0x48, 0x65, 0x6C, 0x6C, 0x6F, 0x2C, 0x20, 0x77, 0x6F, 0x72,
                                  0x6C, 0x64, 0x2E],
                  blob_type = lit ''text/plain'' \<rparr>]\<rparr>)
   \<and> replace_extension (h_fileName (sample_item\<lparr>h_fileName := lit ''notes''\<rparr>)) = lit ''notes''"
proof -
  have n: "h_fileName sample_item = lit ''interview'' @ 0x2E # lit ''mp3''"
    "lit ''mp3'' \<noteq> []" "\<forall>d \<in> set (lit ''mp3''). d \<noteq> 0x2E \<and> d \<noteq> 0x2F"
    "h_text sample_item = lit ''Hello, world.''"
    by (simp_all add: sample_item_def sample_result_def historyItem_def lit_def)
  have wf: "isWellFormed (h_text sample_item)"
    unfolding n(4) by (simp add: lit_def is_lead_def is_trail_def)
  have u: "toUSVString (h_text sample_item) = lit ''Hello, world.''"
    using conjunct1[OF conjunct2[OF download_named_after_file
            [where item = sample_item and e = browser and w = empty_world]]] wf n(4)
    by simp
  have b: "UTF8 (lit ''Hello, world.'')
      = [0x48, 0x65, 0x6C, 0x6C, 0x6F, 0x2C, 0x20, 0x77, 0x6F, 0x72, 0x6C, 0x64, 0x2E]"
    by (simp add: UTF8_def utf8_encode_def code_point_value_def is_lead_def is_trail_def
          lit_def)
  have "0x2E \<notin> set (lit ''notes'')" by (simp add: lit_def)
  then have k: "\<nexists>p x. h_fileName (sample_item\<lparr>h_fileName := lit ''notes''\<rparr>) = p @ 0x2E # x
      \<and> x \<noteq> [] \<and> (\<forall>d \<in> set x. d \<noteq> 0x2E \<and> d \<noteq> 0x2F)"
    by auto
  have s: "replace_extension (h_fileName sample_item) = lit ''interview''"
    using conjunct1[OF conjunct2[OF conjunct2[OF download_named_after_file
            [where item = sample_item and e = browser and w = empty_world]]]]
          n(1,2,3)
    by blast
  have "lit ''interview'' @ lit ''_transcript.txt'' = lit ''interview_transcript.txt''"
    by (simp add: lit_def)
  then have d: "downloadTranscription browser sample_item empty_world =
        Inr (empty_world\<lparr>downloads :=
               [\<lparr> download_name = lit ''interview_transcript.txt'',
                  blob_content = [0x48, 0x65, 0x6C, 0x6C, 0x6F, 0x2C, 0x20, 0x77, 0x6F, 0x72,
                                  0x6C, 0x64, 0x2E],
                  blob_type = lit ''text/plain'' \<rparr>]\<rparr>)"
    using conjunct1[OF download_named_after_file
            [where item = sample_item and e = browser and w = empty_world]]
          browser_works(3) s u b
    by (simp add: empty_world_def)
  have "replace_extension (h_fileName (sample_item\<lparr>h_fileName := lit ''notes''\<rparr>)) = lit ''notes''"
    using conjunct1[OF conjunct2[OF conjunct2[OF conjunct2[OF download_named_after_file
            [where item = "sample_item\<lparr>h_fileName := lit ''notes''\<rparr>" and e = browser
               and w = empty_world]]]]] k
    by simp
  with s d n(1) wf u browser_works(3) show ?thesis by simp
qed

theorem download_content_counterexample:
  "downloadTranscription browser (sample_item\<lparr>h_text := [0x61, 0xD800, 0x62]\<rparr>) empty_world =
     Inr (empty_world\<lparr>downloads :=
            [\<lparr> download_name = lit ''interview_transcript.txt'',
               blob_content = [0x61, 0xEF, 0xBF, 0xBD, 0x62],
               blob_type = lit ''text/plain'' \<rparr>]\<rparr>)
   \<and> downloadTranscription browser (sample_item\<lparr>h_text := [0x61, 0xFFFD, 0x62]\<rparr>) empty_world =
     Inr (empty_world\<lparr>downloads :=
            [\<lparr> download_name = lit ''interview_transcript.txt'',
               blob_content = [0x61, 0xEF, 0xBF, 0xBD, 0x62],
               blob_type = lit ''text/plain'' \<rparr>]\<rparr>)
   \<and> h_text (sample_item\<lparr>h_text := [0x61, 0xD800, 0x62]\<rparr>)
       \<noteq> h_text (sample_item\<lparr>h_text := [0x61, 0xFFFD, 0x62]\<rparr>)"
proof -
  have n: "replace_extension (lit ''interview.mp3'') @ lit ''_transcript.txt''
      = lit ''interview_transcript.txt''"
    by (simp add: lit_def extension_matches_def)
  have t: "toUSVString [0x61, 0xD800, 0x62] = [0x61, 0xFFFD, 0x62]"
    "toUSVString [0x61, 0xFFFD, 0x62] = [0x61, 0xFFFD, 0x62]"
    by (simp_all add: is_lead_def is_trail_def)
  have u: "UTF8 [0x61, 0xFFFD, 0x62] = [0x61, 0xEF, 0xBF, 0xBD, 0x62]"
    by (simp add: UTF8_def utf8_encode_def code_point_value_def is_lead_def is_trail_def)
  have c: "UTF8 (toUSVString [0x61, 0xD800, 0x62]) = [0x61, 0xEF, 0xBF, 0xBD, 0x62]"
    "UTF8 (toUSVString [0x61, 0xFFFD, 0x62]) = [0x61, 0xEF, 0xBF, 0xBD, 0x62]"
    unfolding t by (rule u)+
  have d: "downloadTranscription browser (sample_item\<lparr>h_text := s\<rparr>) empty_world =
     Inr (empty_world\<lparr>downloads :=
            [\<lparr> download_name = lit ''interview_transcript.txt'',
               blob_content = UTF8 (toUSVString s),
               blob_type = lit ''text/plain'' \<rparr>]\<rparr>)" for s
    by (simp add: downloadTranscription_def try_catch_def Blob_content_def browser_def
          sample_item_def sample_result_def historyItem_def empty_world_def n
          del: toUSVString.simps)
  show ?thesis
    unfolding d c by simp
qed

subsection \<open>The bound and the order\<close>

lemma holds_write:
  "holds (w\<lparr>localStorage := (localStorage w)(STORAGE_KEY \<mapsto> stored_text items)\<rparr>) items"
  by (simp add: holds_def)

lemma list_holds_any:
  assumes "holds w items"
  shows "getTranscriptionHistory e w = Inr (records (if storage_blocked e then [] else items))"
  using assms list_holds[of e w items] by (simp add: list_blocked records_def)

lemma save_holds:
  assumes "holds w items"
  shows "\<exists>w' items'. saveTranscription e r w = Inr w' \<and> holds w' items'
           \<and> (items' = items \<or> items' = take 100 (historyItem e r # items))"
proof (cases "storage_blocked e")
  case True
  then have "saveTranscription e r w = Inr w"
    using save_unfold[of e w "[]" r] list_holds_any[OF assms, of e] by simp
  with assms show ?thesis by blast
next
  case False
  then have l: "getTranscriptionHistory e w = Inr (records items)"
    using assms by (rule list_holds)
  show ?thesis
    using assms False holds_write[of w "take 100 (historyItem e r # items)"]
    unfolding save_unfold[OF l] by (auto simp del: take_Cons_numeral)
qed

lemma delete_holds:
  assumes "holds w items"
  shows "\<exists>w' items'. deleteTranscription e i w = Inr w' \<and> holds w' items'
           \<and> (items' = items \<or> items' = filter (\<lambda>h. h_id h \<noteq> i) items)"
proof (cases "storage_blocked e")
  case True
  then have "deleteTranscription e i w = Inr w"
    using delete_unfold[of e w "[]" i] list_holds_any[OF assms, of e] by simp
  with assms show ?thesis by blast
next
  case False
  then have l: "getTranscriptionHistory e w = Inr (records items)"
    using assms by (rule list_holds)
  show ?thesis
    using assms False holds_write[of w "filter (\<lambda>h. h_id h \<noteq> i) items"]
    unfolding delete_unfold[OF l] by auto
qed

lemma clear_holds:
  assumes "holds w items"
  shows "\<exists>w' items'. clearAllHistory e w = Inr w' \<and> holds w' items'
           \<and> (items' = items \<or> items' = [])"
  using assms
  by (cases "storage_blocked e")
     (auto simp: clearAllHistory_def removeItem_def try_catch_def holds_def)

lemma perform_holds:
  assumes "holds w items" and "length items \<le> 100"
  shows "\<exists>w' items'. perform e c w = Inr w' \<and> holds w' items' \<and> length items' \<le> 100
           \<and> subseq items' (rev (saved [(e, c)]) @ items)"
proof (cases c)
  case (Save r)
  from save_holds[OF assms(1), of e r] obtain w' items' where
    s: "saveTranscription e r w = Inr w'" "holds w' items'"
       "items' = items \<or> items' = take 100 (historyItem e r # items)"
    by blast
  have "subseq (take 100 (historyItem e r # items)) (historyItem e r # items)"
    by (rule prefix_imp_subseq) (rule take_is_prefix)
  with s(3) assms(2) have "length items' \<le> 100 \<and> subseq items' (historyItem e r # items)"
    by (auto simp del: take_Cons_numeral)
  with s(1,2) Save show ?thesis by auto
next
  case (Delete i)
  from delete_holds[OF assms(1), of e i] obtain w' items' where
    s: "deleteTranscription e i w = Inr w'" "holds w' items'"
       "items' = items \<or> items' = filter (\<lambda>h. h_id h \<noteq> i) items"
    by blast
  have "length (filter (\<lambda>h. h_id h \<noteq> i) items) \<le> 100"
    using le_trans[OF length_filter_le assms(2)] .
  with s(3) assms(2) have "length items' \<le> 100 \<and> subseq items' items"
    by auto
  with s(1,2) Delete show ?thesis by auto
next
  case Clear
  from clear_holds[OF assms(1), of e] obtain w' items' where
    s: "clearAllHistory e w = Inr w'" "holds w' items'" "items' = items \<or> items' = []"
    by blast
  with assms(2) have "length items' \<le> 100 \<and> subseq items' items" by auto
  with s(1,2) Clear show ?thesis by auto
qed

lemma saved_Cons: "saved (x # cs) = saved [x] @ saved cs"
  by (cases x; cases "snd x") auto

lemma run_holds:
  assumes "holds w items" and "length items \<le> 100"
  shows "\<exists>w' items'. run cs w = Inr w' \<and> holds w' items' \<and> length items' \<le> 100
           \<and> subseq items' (rev (saved cs) @ items)"
  using assms
proof (induction cs arbitrary: w items)
  case Nil
  then show ?case by auto
next
  case (Cons x cs)
  obtain e c where x: "x = (e, c)" by (cases x)
  from perform_holds[OF Cons.prems, of e c] obtain w1 items1 where
    p: "perform e c w = Inr w1" "holds w1 items1" "length items1 \<le> 100"
       "subseq items1 (rev (saved [(e, c)]) @ items)"
    by blast
  from Cons.IH[OF p(2,3)] obtain w' items' where
    r: "run cs w1 = Inr w'" "holds w' items'" "length items' \<le> 100"
       "subseq items' (rev (saved cs) @ items1)"
    by blast
  have "subseq (rev (saved cs) @ items1) (rev (saved cs) @ rev (saved [(e, c)]) @ items)"
    using p(4) by (simp add: subseq_append')
  with r(4) have "subseq items' (rev (saved cs) @ rev (saved [(e, c)]) @ items)"
    by (rule subseq_order.trans)
  moreover have "rev (saved (x # cs)) = rev (saved cs) @ rev (saved [(e, c)])"
    unfolding x by (cases c) simp_all
  ultimately have "subseq items' (rev (saved (x # cs)) @ items)"
    by simp
  with p(1) r(1,2,3) x show ?case by auto
qed

lemma take_append_take: "take n (xs @ take n ys) = take n (xs @ ys)"
  by (simp add: min_def)

lemma run_saves:
  assumes "holds w items" and "length items \<le> 100"
    and "\<forall>(e, c) \<in> set cs. \<not> storage_blocked e \<and> (\<forall>v. \<not> quota_exceeded e STORAGE_KEY v)
            \<and> (\<exists>r. c = Save r)"
  shows "\<exists>w'. run cs w = Inr w' \<and> holds w' (take 100 (rev (saved cs) @ items))"
  using assms
proof (induction cs arbitrary: w items)
  case Nil
  then show ?case by simp
next
  case (Cons x cs)
  from Cons.prems(3) obtain e r where x: "x = (e, Save r)"
    and e: "\<not> storage_blocked e" "\<forall>v. \<not> quota_exceeded e STORAGE_KEY v"
    by (cases x) auto
  let ?items1 = "take 100 (historyItem e r # items)"
  have l: "getTranscriptionHistory e w = Inr (records items)"
    using e(1) Cons.prems(1) by (rule list_holds)
  have s: "saveTranscription e r w
      = Inr (w\<lparr>localStorage := (localStorage w)(STORAGE_KEY \<mapsto> stored_text ?items1)\<rparr>)"
    using e by (simp add: save_unfold[OF l] del: take_Cons_numeral)
  have h1: "holds (w\<lparr>localStorage := (localStorage w)(STORAGE_KEY \<mapsto> stored_text ?items1)\<rparr>) ?items1"
    by (rule holds_write)
  have l1: "length ?items1 \<le> 100" by simp
  from Cons.prems(3) have rest: "\<forall>(e, c) \<in> set cs. \<not> storage_blocked e
      \<and> (\<forall>v. \<not> quota_exceeded e STORAGE_KEY v) \<and> (\<exists>r. c = Save r)"
    by simp
  from Cons.IH[OF h1 l1 rest] obtain w' where
    r: "run cs (w\<lparr>localStorage := (localStorage w)(STORAGE_KEY \<mapsto> stored_text ?items1)\<rparr>) = Inr w'"
       "holds w' (take 100 (rev (saved cs) @ ?items1))"
    by blast
  have "take 100 (rev (saved cs) @ ?items1) = take 100 (rev (saved (x # cs)) @ items)"
    unfolding x by (simp add: take_append_take del: take_Cons_numeral)
  with r(2) have "holds w' (take 100 (rev (saved (x # cs)) @ items))" by simp
  moreover have "run (x # cs) w = Inr w'"
    unfolding x using s r(1) by simp
  ultimately show ?case by blast
qed

lemma historyItem_result: "historyItem e r = historyItem e' r' \<Longrightarrow> r = r'"
  by (cases r, cases r') (simp add: historyItem_def)

lemma saved_of_saves:
  assumes "\<forall>(e, c) \<in> set cs. \<exists>r. c = Save r"
  shows "h \<in> set (saved cs) \<Longrightarrow> \<exists>e r. (e, Save r) \<in> set cs \<and> h = historyItem e r"
  using assms by (induction cs rule: saved.induct) auto

lemma length_saved_saves:
  assumes "\<forall>(e, c) \<in> set cs. \<exists>r. c = Save r"
  shows "length (saved cs) = length cs"
  using assms by (induction cs rule: saved.induct) auto

lemma distinct_saved:
  assumes "\<forall>(e, c) \<in> set cs. \<exists>r. c = Save r" and "distinct (map snd cs)"
  shows "distinct (saved cs)"
  using assms
proof (induction cs rule: saved.induct)
  case 1
  show ?case by simp
next
  case (2 e r cs)
  then have a: "\<forall>(e, c) \<in> set cs. \<exists>r. c = Save r" and d: "distinct (map snd cs)"
    and n: "Save r \<notin> snd ` set cs"
    by auto
  have "historyItem e r \<notin> set (saved cs)"
  proof
    assume "historyItem e r \<in> set (saved cs)"
    from saved_of_saves[OF a this] obtain e' r' where
      m: "(e', Save r') \<in> set cs" "historyItem e r = historyItem e' r'"
      by blast
    from m(2) have "r = r'" by (rule historyItem_result)
    with m(1) n show False by force
  qed
  with 2(1)[OF a d] show ?case by simp
next
  case (3 e i cs)
  then show ?case by auto
next
  case (4 e cs)
  then show ?case by auto
qed

lemma holds_empty_world: "holds empty_world []"
  by (simp add: holds_def empty_world_def)


text \<open>
  Claim C1. After any sequence of save, delete and clear calls from empty storage, in
  any environments, a listing returns at most 100 records, and they are a subsequence of
  the records saved, most recent first. After 101 saves of distinct results, with storage
  accepting every write, the listing has exactly 100 records: those of the last 100
  saves, most recent first, without the record of the first save.
\<close>

theorem history_bounded_and_recent_first:
  fixes script :: "('n env \<times> store_op) list"
  shows "(\<exists>w items. run script empty_world = Inr w
            \<and> (\<forall>e :: 'n env. \<not> storage_blocked e
                   \<longrightarrow> getTranscriptionHistory e w = Inr (records items))
            \<and> length items \<le> 100
            \<and> subseq items (rev (saved script)))
       \<and> (length script = 101
            \<and> (\<forall>(e, c) \<in> set script. \<not> storage_blocked e
                   \<and> (\<forall>v. \<not> quota_exceeded e STORAGE_KEY v) \<and> (\<exists>r. c = Save r))
            \<and> distinct (map snd script)
          \<longrightarrow> (\<exists>w. run script empty_world = Inr w
                 \<and> (\<forall>e :: 'n env. \<not> storage_blocked e
                        \<longrightarrow> getTranscriptionHistory e w = Inr (records (rev (saved (tl script)))))
                 \<and> length (rev (saved (tl script))) = 100
                 \<and> hd (saved script) \<notin> set (rev (saved (tl script)))))"
proof (intro conjI impI)
  from run_holds[OF holds_empty_world, of script] obtain w items where
    r: "run script empty_world = Inr w" "holds w items" "length items \<le> 100"
       "subseq items (rev (saved script))"
    by auto
  from r(2) have "\<forall>e :: 'n env. \<not> storage_blocked e
      \<longrightarrow> getTranscriptionHistory e w = Inr (records items)"
    by (simp add: list_holds)
  with r(1,3,4) show "\<exists>w items. run script empty_world = Inr w
            \<and> (\<forall>e :: 'n env. \<not> storage_blocked e
                   \<longrightarrow> getTranscriptionHistory e w = Inr (records items))
            \<and> length items \<le> 100
            \<and> subseq items (rev (saved script))"
    by blast
next
  assume a: "length script = 101
            \<and> (\<forall>(e, c) \<in> set script. \<not> storage_blocked e
                   \<and> (\<forall>v. \<not> quota_exceeded e STORAGE_KEY v) \<and> (\<exists>r. c = Save r))
            \<and> distinct (map snd script)"
  then obtain x cs where sc: "script = x # cs" by (cases script) auto
  from a have sv: "\<forall>(e, c) \<in> set script. \<exists>r. c = Save r" by auto
  have len: "length (saved script) = 101"
    using length_saved_saves[OF sv] a by simp
  have dist: "distinct (saved script)"
    using distinct_saved[OF sv] a by simp
  have sp: "saved script = saved [x] @ saved cs"
    unfolding sc by (rule saved_Cons)
  from sv sc obtain e r where x: "x = (e, Save r)" by (cases x) auto
  have tl: "saved (tl script) = tl (saved script)" "saved script \<noteq> []"
    unfolding sc x by simp_all
  from a have rel: "\<forall>(e, c) \<in> set script. \<not> storage_blocked e
      \<and> (\<forall>v. \<not> quota_exceeded e STORAGE_KEY v) \<and> (\<exists>r. c = Save r)"
    by simp
  from run_saves[OF holds_empty_world _ rel] obtain w where
    r: "run script empty_world = Inr w" "holds w (take 100 (rev (saved script) @ []))"
    by auto
  have "take 100 (rev (saved script)) = rev (drop 1 (saved script))"
    using len by (simp add: take_rev)
  then have t: "take 100 (rev (saved script) @ []) = rev (saved (tl script))"
    by (simp add: tl drop_Suc)
  from r(2) have "\<forall>e :: 'n env. \<not> storage_blocked e
      \<longrightarrow> getTranscriptionHistory e w = Inr (records (rev (saved (tl script))))"
    unfolding t by (simp add: list_holds)
  moreover have "length (rev (saved (tl script))) = 100"
    using len tl by simp
  moreover have "hd (saved script) \<notin> set (rev (saved (tl script)))"
    using dist tl by (cases "saved script") auto
  ultimately show "\<exists>w. run script empty_world = Inr w
                 \<and> (\<forall>e :: 'n env. \<not> storage_blocked e
                        \<longrightarrow> getTranscriptionHistory e w = Inr (records (rev (saved (tl script)))))
                 \<and> length (rev (saved (tl script))) = 100
                 \<and> hd (saved script) \<notin> set (rev (saved (tl script)))"
    using r(1) by blast
qed

theorem history_bounded_and_recent_first_witness:
  "length saves_101 = 101
   \<and> distinct (map snd saves_101)
   \<and> \<not> storage_blocked browser
   \<and> (\<exists>w. run saves_101 empty_world = Inr w
         \<and> getTranscriptionHistory browser w = Inr (records (rev (saved (tl saves_101))))
         \<and> length (rev (saved (tl saves_101))) = 100
         \<and> hd (saved saves_101) \<notin> set (rev (saved (tl saves_101))))
   \<and> (\<exists>w items. run saves_101 empty_world = Inr w
         \<and> getTranscriptionHistory browser w = Inr (records items)
         \<and> length items \<le> 100
         \<and> subseq items (rev (saved saves_101)))"
proof -
  have p1: "\<exists>w items. run saves_101 empty_world = Inr w
         \<and> (\<forall>e :: jsstring env. \<not> storage_blocked e
                \<longrightarrow> getTranscriptionHistory e w = Inr (records items))
         \<and> length items \<le> 100
         \<and> subseq items (rev (saved saves_101))"
    using conjunct1[OF history_bounded_and_recent_first[of saves_101]] .
  have p2: "\<exists>w. run saves_101 empty_world = Inr w
         \<and> (\<forall>e :: jsstring env. \<not> storage_blocked e
                \<longrightarrow> getTranscriptionHistory e w = Inr (records (rev (saved (tl saves_101)))))
         \<and> length (rev (saved (tl saves_101))) = 100
         \<and> hd (saved saves_101) \<notin> set (rev (saved (tl saves_101)))"
    using conjunct2[OF history_bounded_and_recent_first[of saves_101]] saves_101_facts
    by (elim impE) (intro conjI, assumption+)
  from p1 obtain w items where a: "run saves_101 empty_world = Inr w"
      "\<forall>e :: jsstring env. \<not> storage_blocked e
          \<longrightarrow> getTranscriptionHistory e w = Inr (records items)"
      "length items \<le> 100" "subseq items (rev (saved saves_101))"
    by blast
  from a(2) browser_works(1) have a2: "getTranscriptionHistory browser w = Inr (records items)"
    by blast
  from p2 obtain w' where b: "run saves_101 empty_world = Inr w'"
      "\<forall>e :: jsstring env. \<not> storage_blocked e
          \<longrightarrow> getTranscriptionHistory e w' = Inr (records (rev (saved (tl saves_101))))"
      "length (rev (saved (tl saves_101))) = 100"
      "hd (saved saves_101) \<notin> set (rev (saved (tl saves_101)))"
    by blast
  from b(2) browser_works(1)
  have b2: "getTranscriptionHistory browser w' = Inr (records (rev (saved (tl saves_101))))"
    by blast
  have q1: "\<exists>w. run saves_101 empty_world = Inr w
         \<and> getTranscriptionHistory browser w = Inr (records (rev (saved (tl saves_101))))
         \<and> length (rev (saved (tl saves_101))) = 100
         \<and> hd (saved saves_101) \<notin> set (rev (saved (tl saves_101)))"
    using b(1) b2 b(3) b(4) by (intro exI[of _ w'] conjI)
  have q2: "\<exists>w items. run saves_101 empty_world = Inr w
         \<and> getTranscriptionHistory browser w = Inr (records items)
         \<and> length items \<le> 100
         \<and> subseq items (rev (saved saves_101))"
    using a(1) a2 a(3) a(4) by (intro exI[of _ w] exI[of _ items] conjI)
  from saves_101_facts(1,3) browser_works(1) q1 q2 show ?thesis
    by (intro conjI)
qed

end
